theory Spec2Isabelle
  imports Complex_Main
begin

section \<open>Data model of the validator (src/template/base/validator.py)\<close>

text \<open>
  The exceptions the modelled methods can raise.
\<close>

datatype py_error = IndexError | ValueError | UnboundLocalError

text \<open>
  \<open>BitrecsRequest\<close>: the synapse exchanged with the API server and the miners.  Only
  the fields the validator reads are kept: \<open>num_results\<close> is a Python int,
  \<open>results\<close> the list of recommendations, \<open>miner_uid\<close> and \<open>miner_hotkey\<close>
  identify the responding miner.
\<close>

record BitrecsRequest =
  num_results :: int
  query :: string
  results :: "string list"
  miner_uid :: string
  miner_hotkey :: string

subsection \<open>Response arbiter: \<open>select_top_result\<close>\<close>

text \<open>
  The loop of \<open>select_top_result\<close>: the first \<open>r\<close> of \<open>miner_results\<close> with
  \<open>len(r.results) == original_request.num_results\<close> is returned, and \<open>None\<close> when
  the loop runs off the end.
\<close>

fun select_top_result :: "BitrecsRequest \<Rightarrow> BitrecsRequest list \<Rightarrow> BitrecsRequest option" where
  "select_top_result original_request [] = None"
| "select_top_result original_request (r # miner_results) =
     (if int (length (results r)) = num_results original_request then Some r
      else select_top_result original_request miner_results)"

subsection \<open>Floating-point values\<close>

text \<open>
  The score vector, the rewards and the weights are NumPy float arrays.  A value is
  either finite, an infinity or NaN; the special values follow IEEE 754 as NumPy
  computes them.  The operations below compute finite results exactly: rounding,
  overflow to an infinity and the sign of zero are not part of them.  They are the
  arithmetic of \<open>update_scores\<close>; the sum and the division of \<open>set_weights\<close> are
  parameters of the model.
\<close>

datatype fl = Fin real | PInf | NInf | NaN

fun isnan :: "fl \<Rightarrow> bool" where
  "isnan NaN = True"
| "isnan _ = False"

fun isfinite :: "fl \<Rightarrow> bool" where
  "isfinite (Fin _) = True"
| "isfinite _ = False"

fun fl_add :: "fl \<Rightarrow> fl \<Rightarrow> fl" where
  "fl_add (Fin x) (Fin y) = Fin (x + y)"
| "fl_add NaN _ = NaN"
| "fl_add _ NaN = NaN"
| "fl_add PInf NInf = NaN"
| "fl_add NInf PInf = NaN"
| "fl_add PInf _ = PInf"
| "fl_add _ PInf = PInf"
| "fl_add NInf _ = NInf"
| "fl_add _ NInf = NInf"

fun fl_neg :: "fl \<Rightarrow> fl" where
  "fl_neg (Fin x) = Fin (- x)"
| "fl_neg PInf = NInf"
| "fl_neg NInf = PInf"
| "fl_neg NaN = NaN"

definition fl_sub :: "fl \<Rightarrow> fl \<Rightarrow> fl" where
  "fl_sub a b = fl_add a (fl_neg b)"

text \<open>An infinity times a finite value: NaN at zero, otherwise the sign rule.\<close>

definition inf_times :: "bool \<Rightarrow> real \<Rightarrow> fl" where
  "inf_times positive x =
     (if x = 0 then NaN else if (0 < x) = positive then PInf else NInf)"

fun fl_mul :: "fl \<Rightarrow> fl \<Rightarrow> fl" where
  "fl_mul (Fin x) (Fin y) = Fin (x * y)"
| "fl_mul NaN _ = NaN"
| "fl_mul _ NaN = NaN"
| "fl_mul PInf (Fin y) = inf_times True y"
| "fl_mul NInf (Fin y) = inf_times False y"
| "fl_mul (Fin x) PInf = inf_times True x"
| "fl_mul (Fin x) NInf = inf_times False x"
| "fl_mul PInf PInf = PInf"
| "fl_mul NInf NInf = PInf"
| "fl_mul PInf NInf = NInf"
| "fl_mul NInf PInf = NInf"

text \<open>
  NumPy's true division does not raise: a finite non-zero value over zero is an
  infinity, zero over zero and infinity over infinity are NaN.
\<close>

fun fl_div :: "fl \<Rightarrow> fl \<Rightarrow> fl" where
  "fl_div (Fin x) (Fin y) =
     (if y = 0 then (if x = 0 then NaN else if 0 < x then PInf else NInf)
      else Fin (x / y))"
| "fl_div NaN _ = NaN"
| "fl_div _ NaN = NaN"
| "fl_div (Fin x) PInf = Fin 0"
| "fl_div (Fin x) NInf = Fin 0"
| "fl_div PInf (Fin y) = (if 0 \<le> y then PInf else NInf)"
| "fl_div NInf (Fin y) = (if 0 \<le> y then NInf else PInf)"
| "fl_div PInf PInf = NaN"
| "fl_div PInf NInf = NaN"
| "fl_div NInf PInf = NaN"
| "fl_div NInf NInf = NaN"

fun fl_abs :: "fl \<Rightarrow> fl" where
  "fl_abs (Fin x) = Fin \<bar>x\<bar>"
| "fl_abs PInf = PInf"
| "fl_abs NInf = PInf"
| "fl_abs NaN = NaN"

text \<open>\<open>np.zeros_like\<close>, \<open>np.zeros\<close>, and the sum of an array.\<close>

definition zeros_like :: "fl list \<Rightarrow> fl list" where
  "zeros_like a = replicate (length a) (Fin 0)"

definition zeros :: "nat \<Rightarrow> fl list" where
  "zeros n = replicate n (Fin 0)"

definition fl_sum :: "fl list \<Rightarrow> fl" where
  "fl_sum a = foldl fl_add (Fin 0) a"

subsection \<open>Reputation engine: \<open>update_scores\<close>\<close>

text \<open>
  \<open>np.nan_to_num(rewards, nan=0)\<close> on one element: NaN becomes 0, and the
  infinities become the largest and the smallest finite value of the array's dtype
  (\<open>fmax\<close> and \<open>- fmax\<close>), NumPy's defaults for \<open>posinf\<close> and \<open>neginf\<close>.
\<close>

fun nan_to_num :: "real \<Rightarrow> fl \<Rightarrow> fl" where
  "nan_to_num fmax NaN = Fin 0"
| "nan_to_num fmax PInf = Fin fmax"
| "nan_to_num fmax NInf = Fin (- fmax)"
| "nan_to_num fmax (Fin x) = Fin x"

text \<open>
  The first statement of \<open>update_scores\<close>: the rewards are passed through
  \<open>nan_to_num\<close> only when \<open>np.isnan(rewards).any()\<close>.
\<close>

definition sanitize_rewards :: "real \<Rightarrow> fl list \<Rightarrow> fl list" where
  "sanitize_rewards fmax rewards =
     (if list_ex isnan rewards then map (nan_to_num fmax) rewards else rewards)"

text \<open>
  An index into an array of length \<open>n\<close>, as NumPy resolves it: a negative index counts
  from the end, and an index outside \<open>-n .. n-1\<close> raises IndexError.
\<close>

definition np_index :: "nat \<Rightarrow> int \<Rightarrow> nat option" where
  "np_index n i =
     (if 0 \<le> i \<and> i < int n then Some (nat i)
      else if i < 0 \<and> - int n \<le> i then Some (nat (int n + i))
      else None)"

text \<open>
  \<open>scattered_rewards[uids_array] = rewards\<close>: the values are written in order, so a
  later duplicate of a uid overwrites an earlier one.  The rewards are written as
  they are: the conversion of a reward to the dtype of \<open>self.scores\<close> is not part
  of the model.
\<close>

fun scatter :: "fl list \<Rightarrow> int list \<Rightarrow> fl list \<Rightarrow> py_error + fl list" where
  "scatter a (u # uids) (r # rewards) =
     (case np_index (length a) u of
        None \<Rightarrow> Inl IndexError
      | Some i \<Rightarrow> scatter (a[i := r]) uids rewards)"
| "scatter a _ _ = Inr a"

text \<open>\<open>alpha * scattered_rewards + (1 - alpha) * self.scores\<close>, elementwise.\<close>

definition moving_average :: "fl \<Rightarrow> fl list \<Rightarrow> fl list \<Rightarrow> fl list" where
  "moving_average alpha scattered_rewards old_scores =
     map2 fl_add (map (fl_mul alpha) scattered_rewards)
                 (map (fl_mul (fl_sub (Fin 1) alpha)) old_scores)"

text \<open>
  \<open>update_scores(rewards, uids)\<close> as a function of \<open>self.scores\<close> and of
  \<open>alpha = self.config.neuron.moving_average_alpha\<close>.  \<open>Inr\<close> carries the value of
  \<open>self.scores\<close> when the method returns; on \<open>Inl\<close> the method has raised before
  assigning \<open>self.scores\<close>, which keeps its old value.
\<close>

definition update_scores ::
    "real \<Rightarrow> fl \<Rightarrow> fl list \<Rightarrow> fl list \<Rightarrow> int list \<Rightarrow> py_error + fl list" where
  "update_scores fmax alpha self_scores rewards0 uids =
     (let rewards = sanitize_rewards fmax rewards0 in
      if length rewards = 0 \<or> length uids = 0 then Inr self_scores
      else if length rewards \<noteq> length uids then Inl ValueError
      else (case scatter (zeros_like self_scores) uids rewards of
              Inl e \<Rightarrow> Inl e
            | Inr scattered_rewards \<Rightarrow>
                Inr (moving_average alpha scattered_rewards self_scores)))"

text \<open>The value of \<open>self.scores\<close> after a call that returned or raised.\<close>

definition scores_after :: "fl list \<Rightarrow> py_error + fl list \<Rightarrow> fl list" where
  "scores_after old res = (case res of Inl e \<Rightarrow> old | Inr new \<Rightarrow> new)"

text \<open>Predicates on score and reward values used to state the properties.\<close>

fun nonneg_finite :: "fl \<Rightarrow> bool" where
  "nonneg_finite (Fin x) = (0 \<le> x)"
| "nonneg_finite _ = False"

fun in_unit_interval :: "fl \<Rightarrow> bool" where
  "in_unit_interval (Fin x) = (0 \<le> x \<and> x \<le> 1)"
| "in_unit_interval _ = False"

subsection \<open>The validator's state\<close>

text \<open>
  An entry of \<open>metagraph.axons\<close>: the serving endpoint of one neuron together with
  the hotkey that owns it.  The metagraph is the list of these entries, so
  \<open>metagraph.hotkeys\<close> is the hotkey of each axon and \<open>metagraph.n\<close> their number.
\<close>

record axon_info =
  hotkey :: string
  ip :: string
  port :: nat

type_synonym metagraph = "axon_info list"

definition metagraph_hotkeys :: "metagraph \<Rightarrow> string list" where
  "metagraph_hotkeys m = map hotkey m"

definition metagraph_n :: "metagraph \<Rightarrow> nat" where
  "metagraph_n m = length m"

definition metagraph_uids :: "metagraph \<Rightarrow> nat list" where
  "metagraph_uids m = [0 ..< length m]"

text \<open>
  The calls the validator makes to its external collaborators, in the order they are
  made: weight shaping, quantization, and the submission of weights to the chain.
\<close>

datatype ledger_call =
    ProcessWeights "nat list" "fl list"
  | ConvertWeights "nat list" "fl list"
  | SetWeights "nat list" "nat list"

text \<open>
  The fields of \<open>BaseValidatorNeuron\<close> that the modelled methods read and write:
  \<open>self.scores\<close>, \<open>self.hotkeys\<close>, \<open>self.metagraph\<close>, and the
  trace of external calls made so far.
\<close>

record validator =
  scores :: "fl list"
  hotkeys :: "string list"
  axons :: metagraph
  calls :: "ledger_call list"

text \<open>
  The weight transforms \<open>set_weights\<close> calls, each returning \<open>None\<close> when it
  raises: \<open>process_weights_for_netuid\<close> and \<open>convert_weights_and_uids_for_emit\<close>.
  What \<open>subtensor.set_weights\<close> answers is only logged, so the call is recorded in
  the trace and its answer is not modelled.
\<close>

record ledger =
  process_weights_for_netuid :: "nat list \<Rightarrow> fl list \<Rightarrow> (nat list \<times> fl list) option"
  convert_weights_and_uids_for_emit :: "nat list \<Rightarrow> fl list \<Rightarrow> (nat list \<times> nat list) option"

subsection \<open>Reputation engine: \<open>set_weights\<close>\<close>

text \<open>
  The two NumPy operations of \<open>set_weights\<close> whose results depend on the rounding
  and on the range of the array's dtype: \<open>np.add.reduce\<close>, by which
  \<open>np.linalg.norm\<close> with \<open>ord=1\<close> sums the absolute values, and the elementwise
  division.  They are parameters of the model, and what a property needs of their
  accuracy is stated with it.
\<close>

record numpy =
  add_reduce :: "fl list \<Rightarrow> fl"
  true_divide :: "fl \<Rightarrow> fl \<Rightarrow> fl"

text \<open>
  The operations where every result is representable, so that nothing is rounded and
  nothing overflows.
\<close>

definition exact_numpy :: numpy where
  "exact_numpy = \<lparr>add_reduce = fl_sum, true_divide = fl_div\<rparr>"

text \<open>
  The operations of a dtype whose largest finite value is \<open>fmax\<close>: a result beyond
  the range becomes an infinity.  Results within the range are not rounded.
\<close>

fun overflow :: "real \<Rightarrow> fl \<Rightarrow> fl" where
  "overflow fmax (Fin x) = (if fmax < x then PInf else if x < - fmax then NInf else Fin x)"
| "overflow fmax v = v"

definition ranged_numpy :: "real \<Rightarrow> numpy" where
  "ranged_numpy fmax =
     \<lparr>add_reduce = foldl (\<lambda>s x. overflow fmax (fl_add s x)) (Fin 0),
      true_divide = (\<lambda>a b. overflow fmax (fl_div a b))\<rparr>"

text \<open>\<open>np.linalg.norm(self.scores, ord=1, axis=0, keepdims=True)\<close>: the sum of the absolute values.\<close>

definition l1_norm :: "numpy \<Rightarrow> fl list \<Rightarrow> fl" where
  "l1_norm np a = add_reduce np (map fl_abs a)"

text \<open>
  \<open>if np.any(norm == 0) or np.isnan(norm).any(): norm = np.ones_like(norm)\<close>.
\<close>

definition safe_norm :: "fl \<Rightarrow> fl" where
  "safe_norm nrm = (if nrm = Fin 0 \<or> isnan nrm then Fin 1 else nrm)"

text \<open>\<open>raw_weights = self.scores / norm\<close>.\<close>

definition raw_weights :: "numpy \<Rightarrow> fl list \<Rightarrow> fl list" where
  "raw_weights np self_scores =
     (let nrm = safe_norm (l1_norm np self_scores)
      in map (\<lambda>s. true_divide np s nrm) self_scores)"

text \<open>
  \<open>set_weights\<close>.  It returns at once when \<open>np.all(self.scores == 0)\<close>.  When
  \<open>process_weights_for_netuid\<close> raises, the handler passes and the next statement
  reads the unassigned local \<open>processed_weight_uids\<close>, which raises out of the
  method.  When \<open>convert_weights_and_uids_for_emit\<close> raises, the handler passes and
  the unassigned \<open>uint_uids\<close> is read inside the last \<open>try\<close>, whose handler logs
  the error, so the method returns without a call to \<open>subtensor.set_weights\<close>.
\<close>

definition set_weights :: "numpy \<Rightarrow> ledger \<Rightarrow> validator \<Rightarrow> py_error option \<times> validator" where
  "set_weights np L self =
     (if list_all (\<lambda>s. s = Fin 0) (scores self) then (None, self)
      else
        let raw = raw_weights np (scores self);
            uids = metagraph_uids (axons self);
            self1 = self\<lparr>calls := calls self @ [ProcessWeights uids raw]\<rparr>
        in (case process_weights_for_netuid L uids raw of
              None \<Rightarrow> (Some UnboundLocalError, self1)
            | Some (processed_weight_uids, processed_weights) \<Rightarrow>
                let self2 = self1\<lparr>calls := calls self1 @
                      [ConvertWeights processed_weight_uids processed_weights]\<rparr>
                in (case convert_weights_and_uids_for_emit L processed_weight_uids
                           processed_weights of
                      None \<Rightarrow> (None, self2)
                    | Some (uint_uids, uint_weights) \<Rightarrow>
                        (None, self2\<lparr>calls := calls self2 @
                           [SetWeights uint_uids uint_weights]\<rparr>))))"

subsection \<open>Membership resync: \<open>resync_metagraph\<close>\<close>

text \<open>
  The loop \<open>for uid, hotkey in enumerate(self.hotkeys)\<close>, started at index \<open>uid\<close>.
  Reading \<open>self.metagraph.hotkeys[uid]\<close> past the end of the new list raises
  IndexError, and so does writing \<open>self.scores[uid]\<close> past the end of the scores.
  The scores are updated in place, so \<open>Inl\<close> carries the scores as they are when the
  exception leaves the loop.
\<close>

fun zero_replaced :: "nat \<Rightarrow> string list \<Rightarrow> string list \<Rightarrow> fl list \<Rightarrow> fl list + fl list" where
  "zero_replaced uid [] new_hotkeys sc = Inr sc"
| "zero_replaced uid (hk # rest) new_hotkeys sc =
     (if length new_hotkeys \<le> uid then Inl sc
      else if hk \<noteq> new_hotkeys ! uid then
        (if length sc \<le> uid then Inl sc
         else zero_replaced (Suc uid) rest new_hotkeys (sc[uid := Fin 0]))
      else zero_replaced (Suc uid) rest new_hotkeys sc)"

text \<open>
  The growth branch: \<open>new_moving_average = np.zeros((self.metagraph.n))\<close>, then
  \<open>new_moving_average[:min_len] = self.scores[:min_len]\<close>.  The branch is entered
  only with \<open>len(self.hotkeys) < len(self.metagraph.hotkeys)\<close>, so \<open>min_len\<close> is
  below \<open>n\<close> and the slice assignment fits.
\<close>

definition grow_scores :: "nat \<Rightarrow> nat \<Rightarrow> fl list \<Rightarrow> fl list" where
  "grow_scores n len_hotkeys sc =
     (let min_len = min len_hotkeys (length sc)
      in take min_len sc @ drop min_len (zeros n))"

text \<open>
  \<open>resync_metagraph\<close>; \<open>synced\<close> is the metagraph as \<open>self.metagraph.sync\<close> leaves
  it.  The first component of the result is the exception raised, if any.
\<close>

definition resync_metagraph :: "validator \<Rightarrow> metagraph \<Rightarrow> py_error option \<times> validator" where
  "resync_metagraph self synced =
     (let previous_metagraph = axons self;
          self1 = self\<lparr>axons := synced\<rparr>
      in if previous_metagraph = synced then (None, self1)
         else (case zero_replaced 0 (hotkeys self1) (metagraph_hotkeys synced) (scores self1) of
                 Inl sc \<Rightarrow> (Some IndexError, self1\<lparr>scores := sc\<rparr>)
               | Inr sc \<Rightarrow>
                   let sc' = (if length (hotkeys self1) < length (metagraph_hotkeys synced)
                              then grow_scores (metagraph_n synced) (length (hotkeys self1)) sc
                              else sc)
                   in (None, self1\<lparr>scores := sc', hotkeys := metagraph_hotkeys synced\<rparr>)))"

text \<open>
  The state \<open>__init__\<close> builds and every completed resync restores: the stored
  hotkeys are those of the stored metagraph, and there is one score per hotkey.
\<close>

definition consistent :: "validator \<Rightarrow> bool" where
  "consistent self \<longleftrightarrow>
     hotkeys self = metagraph_hotkeys (axons self) \<and> length (scores self) = length (hotkeys self)"

subsection \<open>Peer selection and the dispatch loop: \<open>run\<close>\<close>

text \<open>
  \<open>random.sample(population, k)\<close> raises ValueError when \<open>k\<close> is negative or
  larger than the population, and otherwise returns the elements at \<open>k\<close> distinct
  positions.  The random choices are an explicit argument: each draw \<open>d\<close> selects
  position \<open>d mod m\<close> among the \<open>m\<close> elements not yet taken, and a missing draw
  counts as 0.
\<close>

fun pick :: "nat list \<Rightarrow> 'a list \<Rightarrow> nat \<Rightarrow> 'a list" where
  "pick draws population 0 = []"
| "pick draws [] (Suc k) = []"
| "pick draws (p # ps) (Suc k) =
     (let i = (case draws of [] \<Rightarrow> 0 | d # _ \<Rightarrow> d mod length (p # ps))
      in (p # ps) ! i # pick (tl draws) (take i (p # ps) @ drop (Suc i) (p # ps)) k)"

definition random_sample :: "nat list \<Rightarrow> 'a list \<Rightarrow> int \<Rightarrow> py_error + 'a list" where
  "random_sample draws population k =
     (if k < 0 \<or> int (length population) < k then Inl ValueError
      else Inr (pick draws population (nat k)))"

text \<open>
  Modelled from the spec: \<open>clamp\<close> of \<open>template.utils.uids\<close>, which is not among
  the sources.  The call is \<open>clamp(min=1, max=10, x=len(available_uids))\<close> and the
  spec gives \<open>clamp(1,10,7) = 7\<close>: \<open>x\<close> limited to the range from \<open>min\<close> to
  \<open>max\<close>.
\<close>

definition clamp :: "int \<Rightarrow> int \<Rightarrow> int \<Rightarrow> int" where
  "clamp lo hi x = max lo (min hi x)"

text \<open>
  Modelled from the spec: \<open>get_random_uids\<close> of \<open>template.utils.uids\<close>, which is
  not among the sources.  The membership \<open>0 .. n-1\<close> is filtered by the
  availability predicate, and a random sample of \<open>min(k, |available|)\<close> of the
  available uids is returned, the empty list when no worker is available.
\<close>

definition get_random_uids :: "nat list \<Rightarrow> (nat \<Rightarrow> bool) \<Rightarrow> nat \<Rightarrow> int \<Rightarrow> nat list" where
  "get_random_uids draws available n k =
     (let avail_uids = filter available [0 ..< n]
      in pick draws avail_uids (nat (min k (int (length avail_uids)))))"

text \<open>
  The peer selection of \<open>run\<close>: \<open>available_uids = get_random_uids(self, k=sample_size)\<close>
  and \<open>chosen_uids = random.sample(available_uids, k=clamp(min=1, max=10,
  x=len(available_uids)))\<close>.
\<close>

definition choose_uids ::
    "nat list \<Rightarrow> nat list \<Rightarrow> (nat \<Rightarrow> bool) \<Rightarrow> nat \<Rightarrow> int \<Rightarrow> py_error + nat list" where
  "choose_uids draws1 draws2 available n sample_size =
     (let available_uids = get_random_uids draws1 available n sample_size
      in random_sample draws2 available_uids (clamp 1 10 (int (length available_uids))))"

text \<open>
  \<open>SynapseWithEvent\<close>: the request the API server queued, the \<open>threading.Event\<close>
  its handler waits on (\<open>True\<close> once set), and the result slot the handler returns
  after the event is set.
\<close>

record SynapseWithEvent =
  input_synapse :: BitrecsRequest
  event :: bool
  output_synapse :: BitrecsRequest

text \<open>
  What one pass through the body of \<open>while True\<close> reads: \<open>config.api.enabled\<close>,
  \<open>config.neuron.sample_size\<close>, \<open>self.should_exit\<close>, the availability of each
  uid, and the replies \<open>self.dendrite.query\<close> returns for the chosen uids and the
  request.  \<open>config.api.exclusive\<close> only decides whether the synthetic forward runs
  and how long the pass sleeps at its end.
\<close>

record run_env =
  api_enabled :: bool
  sample_size :: int
  should_exit :: bool
  available :: "nat \<Rightarrow> bool"
  dendrite_query :: "nat list \<Rightarrow> BitrecsRequest \<Rightarrow> BitrecsRequest list"

text \<open>
  How a pass ends: by \<open>continue\<close>, by \<open>return\<close> on \<open>should_exit\<close>, by reaching
  \<open>self.step += 1\<close>, or in the handler \<open>except Exception\<close> of the pass (which logs
  and sleeps).
\<close>

datatype iteration_end = Continued | Returned | Stepped | Caught py_error

definition finish :: "run_env \<Rightarrow> iteration_end" where
  "finish env = (if should_exit env then Returned else Stepped)"

text \<open>
  One pass of the loop of \<open>run\<close>, as far as the dequeued request is concerned.
  \<open>dequeued\<close> is the outcome of \<open>api_queue.get(timeout=5)\<close>, \<open>None\<close> on
  \<open>Empty\<close>.  The result holds the dequeued \<open>SynapseWithEvent\<close> as the pass leaves
  it; the next pass starts by resetting its local variable to \<open>None\<close>, so nothing
  later touches it.  The synthetic forward and \<open>self.sync()\<close> of the other branch
  act on the rest of the validator and are left out.
\<close>

definition run_iteration ::
    "run_env \<Rightarrow> nat list \<Rightarrow> nat list \<Rightarrow> nat \<Rightarrow> SynapseWithEvent option
       \<Rightarrow> iteration_end \<times> SynapseWithEvent option" where
  "run_iteration env draws1 draws2 n dequeued =
     (case dequeued of
        None \<Rightarrow> (finish env, None)
      | Some synapse_with_event \<Rightarrow>
          if api_enabled env then
            (case choose_uids draws1 draws2 (available env) n (sample_size env) of
               Inl e \<Rightarrow> (Caught e, Some synapse_with_event)
             | Inr chosen_uids \<Rightarrow>
                 let api_request = input_synapse synapse_with_event;
                     responses = dendrite_query env chosen_uids api_request
                 in (case select_top_result api_request responses of
                       None \<Rightarrow> (Continued, Some synapse_with_event)
                     | Some selected_response \<Rightarrow>
                         (finish env,
                          Some (synapse_with_event\<lparr>output_synapse := selected_response,
                                  event := True\<rparr>))))
          else (finish env, Some synapse_with_event))"

section \<open>Properties\<close>

subsection \<open>Response arbiter\<close>

lemma select_top_result_None:
  "select_top_result q rs = None \<longleftrightarrow>
     (\<forall>r \<in> set rs. int (length (results r)) \<noteq> num_results q)"
  by (induction rs) auto

lemma select_top_result_Some:
  "select_top_result q rs = Some r \<Longrightarrow>
     \<exists>i < length rs. rs ! i = r \<and> int (length (results r)) = num_results q \<and>
       (\<forall>j < i. int (length (results (rs ! j))) \<noteq> num_results q)"
proof (induction rs)
  case Nil
  then show ?case by simp
next
  case (Cons a rs)
  show ?case
  proof (cases "int (length (results a)) = num_results q")
    case True
    with Cons.prems have "a = r" by simp
    with True have "(a # rs) ! 0 = r \<and> int (length (results r)) = num_results q \<and>
        (\<forall>j < (0::nat). int (length (results ((a # rs) ! j))) \<noteq> num_results q)"
      by simp
    then show ?thesis by blast
  next
    case False
    with Cons.prems have "select_top_result q rs = Some r" by simp
    from Cons.IH [OF this] obtain i where i: "i < length rs" "rs ! i = r"
      "int (length (results r)) = num_results q"
      "\<forall>j < i. int (length (results (rs ! j))) \<noteq> num_results q"
      by blast
    have "\<forall>j < Suc i. int (length (results ((a # rs) ! j))) \<noteq> num_results q"
    proof (intro allI impI)
      fix j assume "j < Suc i"
      then show "int (length (results ((a # rs) ! j))) \<noteq> num_results q"
        using False i(4) by (cases j) auto
    qed
    with i have "Suc i < length (a # rs) \<and> (a # rs) ! Suc i = r \<and>
        int (length (results r)) = num_results q \<and>
        (\<forall>j < Suc i. int (length (results ((a # rs) ! j))) \<noteq> num_results q)"
      by simp
    then show ?thesis by blast
  qed
qed

text \<open>
  C2.  For every original request with requested count \<open>n\<close> and every list of miner
  responses, \<open>select_top_result\<close> returns the first response of the list whose result
  list has exactly \<open>n\<close> items (the response at the least such index), and returns none
  exactly when no response has \<open>n\<close> items.
\<close>

theorem select_top_result_first_exact:
  "(case select_top_result q rs of
      None \<Rightarrow> \<forall>r \<in> set rs. int (length (results r)) \<noteq> num_results q
    | Some r \<Rightarrow> \<exists>i < length rs. rs ! i = r \<and> int (length (results r)) = num_results q \<and>
        (\<forall>j < i. int (length (results (rs ! j))) \<noteq> num_results q))"
proof (cases "select_top_result q rs")
  case None
  then show ?thesis using select_top_result_None [of q rs] by simp
next
  case (Some r)
  then show ?thesis using select_top_result_Some [of q rs r] by simp
qed

theorem select_top_result_first_exact_witness:
  "select_top_result \<lparr>num_results = 5, query = ''shoes'', results = [], miner_uid = [],
        miner_hotkey = []\<rparr>
     [\<lparr>num_results = 5, query = ''shoes'', results = [''a'', ''b'', ''c''],
         miner_uid = ''0'', miner_hotkey = ''hk0''\<rparr>,
      \<lparr>num_results = 5, query = ''shoes'', results = [''a'', ''b'', ''c'', ''d'', ''e''],
         miner_uid = ''1'', miner_hotkey = ''hk1''\<rparr>,
      \<lparr>num_results = 5, query = ''shoes'', results = [''v'', ''w'', ''x'', ''y'', ''z''],
         miner_uid = ''2'', miner_hotkey = ''hk2''\<rparr>]
   = Some \<lparr>num_results = 5, query = ''shoes'', results = [''a'', ''b'', ''c'', ''d'', ''e''],
         miner_uid = ''1'', miner_hotkey = ''hk1''\<rparr>"
  using select_top_result_first_exact
    [where q = "\<lparr>num_results = 5, query = ''shoes'', results = [], miner_uid = [],
        miner_hotkey = []\<rparr>"
     and rs = "[\<lparr>num_results = 5, query = ''shoes'', results = [''a'', ''b'', ''c''],
         miner_uid = ''0'', miner_hotkey = ''hk0''\<rparr>,
      \<lparr>num_results = 5, query = ''shoes'', results = [''a'', ''b'', ''c'', ''d'', ''e''],
         miner_uid = ''1'', miner_hotkey = ''hk1''\<rparr>,
      \<lparr>num_results = 5, query = ''shoes'', results = [''v'', ''w'', ''x'', ''y'', ''z''],
         miner_uid = ''2'', miner_hotkey = ''hk2''\<rparr>]"]
  by simp

subsection \<open>Scattering rewards\<close>

lemma np_index_in_range:
  "0 \<le> u \<Longrightarrow> u < int n \<Longrightarrow> np_index n u = Some (nat u)"
  by (simp add: np_index_def)

lemma scatter_length:
  "scatter a uids rewards = Inr a' \<Longrightarrow> length a' = length a"
  by (induction a uids rewards rule: scatter.induct) (auto split: option.splits)

lemma scatter_returns:
  "\<forall>u \<in> set uids. 0 \<le> u \<and> u < int (length a) \<Longrightarrow> \<exists>a'. scatter a uids rewards = Inr a'"
  by (induction a uids rewards rule: scatter.induct) (auto simp: np_index_in_range)

lemma scatter_untouched:
  "scatter a uids rewards = Inr a' \<Longrightarrow> \<forall>u \<in> set uids. 0 \<le> u \<and> u < int (length a) \<Longrightarrow>
     i < length a \<Longrightarrow> int i \<notin> set uids \<Longrightarrow> a' ! i = a ! i"
proof (induction a uids rewards rule: scatter.induct)
  case (1 a u uids r rewards)
  then show ?case by (auto simp: np_index_in_range split: option.splits)
qed auto

lemma scatter_written:
  "scatter a uids rewards = Inr a' \<Longrightarrow> \<forall>u \<in> set uids. 0 \<le> u \<and> u < int (length a) \<Longrightarrow>
     distinct uids \<Longrightarrow> length uids = length rewards \<Longrightarrow> j < length uids \<Longrightarrow>
     a' ! nat (uids ! j) = rewards ! j"
proof (induction a uids rewards arbitrary: j rule: scatter.induct)
  case (1 a u uids r rewards)
  from "1.prems" have u: "0 \<le> u" "u < int (length a)" by auto
  from "1.prems"(1) u have sc: "scatter (a[nat u := r]) uids rewards = Inr a'"
    by (simp add: np_index_in_range)
  show ?case
  proof (cases j)
    case 0
    have "a' ! nat u = (a[nat u := r]) ! nat u"
      using scatter_untouched [OF sc, of "nat u"] "1.prems" u by auto
    with 0 u show ?thesis by simp
  next
    case (Suc j')
    then show ?thesis
      using "1.IH" [OF np_index_in_range [OF u] sc, of j'] "1.prems" by auto
  qed
qed auto

lemma scatter_list_all:
  "scatter a uids rewards = Inr a' \<Longrightarrow> list_all P a \<Longrightarrow> list_all P rewards \<Longrightarrow> list_all P a'"
proof (induction a uids rewards rule: scatter.induct)
  case (1 a u uids r rewards)
  then show ?case
    by (auto split: option.splits simp: list_all_iff dest!: set_update_subset_insert [THEN subsetD])
qed auto

subsection \<open>The moving average\<close>

lemma moving_average_length:
  "length sc = length old \<Longrightarrow> length (moving_average alpha sc old) = length old"
  by (simp add: moving_average_def)

lemma moving_average_nth:
  "length sc = length old \<Longrightarrow> i < length old \<Longrightarrow>
     moving_average alpha sc old ! i =
       fl_add (fl_mul alpha (sc ! i)) (fl_mul (fl_sub (Fin 1) alpha) (old ! i))"
  by (simp add: moving_average_def)

lemma ema_nonneg_finite:
  "nonneg_finite r \<Longrightarrow> nonneg_finite s \<Longrightarrow> 0 < a \<Longrightarrow> a \<le> 1 \<Longrightarrow>
     nonneg_finite (fl_add (fl_mul (Fin a) r) (fl_mul (fl_sub (Fin 1) (Fin a)) s))"
  by (cases r; cases s) (simp_all add: fl_sub_def)

lemma moving_average_nonneg_finite:
  assumes "length sc = length old" "list_all nonneg_finite sc" "list_all nonneg_finite old"
    "0 < a" "a \<le> 1"
  shows "list_all nonneg_finite (moving_average (Fin a) sc old)"
  unfolding list_all_length
proof (intro allI impI)
  fix i assume "i < length (moving_average (Fin a) sc old)"
  with assms(1) have i: "i < length old" by (simp add: moving_average_length)
  with assms have "nonneg_finite (sc ! i)" "nonneg_finite (old ! i)"
    by (simp_all add: list_all_length)
  then show "nonneg_finite (moving_average (Fin a) sc old ! i)"
    using assms(1,4,5) i by (simp add: moving_average_nth ema_nonneg_finite)
qed

lemma in_unit_interval_not_nan: "list_all in_unit_interval rewards \<Longrightarrow> \<not> list_ex isnan rewards"
proof (induction rewards)
  case (Cons r rewards)
  then show ?case by (cases r) auto
qed simp

lemma in_unit_interval_nonneg_finite: "in_unit_interval r \<Longrightarrow> nonneg_finite r"
  by (cases r) auto

lemma nan_to_num_not_nan: "\<not> isnan (nan_to_num fmax r)"
  by (cases r) auto

lemma sanitize_rewards_length: "length (sanitize_rewards fmax rewards) = length rewards"
  by (simp add: sanitize_rewards_def)

lemma sanitize_rewards_no_nan: "\<not> list_ex isnan (sanitize_rewards fmax rewards)"
  by (auto simp: sanitize_rewards_def list_ex_iff nan_to_num_not_nan)

text \<open>
  C3.  For every non-empty reward batch without NaN, with as many rewards as uids, the
  uids distinct and within the score vector, \<open>update_scores\<close> returns and sets
  \<open>self.scores\<close> to \<open>alpha * scattered + (1 - alpha) * self.scores\<close> elementwise,
  where \<open>scattered\<close> holds reward \<open>j\<close> at index \<open>uids[j]\<close> and 0 at every index
  that is no uid of the batch.  The length of the score vector is kept.
\<close>

theorem update_scores_moving_average:
  assumes "rewards \<noteq> []" and "length uids = length rewards" and "distinct uids"
    and "\<forall>u \<in> set uids. 0 \<le> u \<and> u < int (length self_scores)"
    and "\<not> list_ex isnan rewards"
  shows "\<exists>new. update_scores fmax alpha self_scores rewards uids = Inr new \<and>
     length new = length self_scores \<and>
     (\<forall>j < length uids. new ! nat (uids ! j) =
        fl_add (fl_mul alpha (rewards ! j))
               (fl_mul (fl_sub (Fin 1) alpha) (self_scores ! nat (uids ! j)))) \<and>
     (\<forall>i < length self_scores. int i \<notin> set uids \<longrightarrow> new ! i =
        fl_add (fl_mul alpha (Fin 0)) (fl_mul (fl_sub (Fin 1) alpha) (self_scores ! i)))"
proof -
  let ?z = "zeros_like self_scores"
  have rng: "\<forall>u \<in> set uids. 0 \<le> u \<and> u < int (length ?z)"
    using assms(4) by (simp add: zeros_like_def)
  from scatter_returns [OF rng] obtain sc where sc: "scatter ?z uids rewards = Inr sc"
    by blast
  have len: "length sc = length self_scores"
    using scatter_length [OF sc] by (simp add: zeros_like_def)
  let ?new = "moving_average alpha sc self_scores"
  have res: "update_scores fmax alpha self_scores rewards uids = Inr ?new"
    using assms(1,2,5) sc by (simp add: update_scores_def sanitize_rewards_def)
  have written: "\<forall>j < length uids. ?new ! nat (uids ! j) =
        fl_add (fl_mul alpha (rewards ! j))
               (fl_mul (fl_sub (Fin 1) alpha) (self_scores ! nat (uids ! j)))"
  proof (intro allI impI)
    fix j assume j: "j < length uids"
    then have "uids ! j \<in> set uids" by simp
    with assms(4) have "0 \<le> uids ! j" "uids ! j < int (length self_scores)" by auto
    then have "nat (uids ! j) < length self_scores" by simp
    moreover have "sc ! nat (uids ! j) = rewards ! j"
      using scatter_written [OF sc rng assms(3) assms(2) j] .
    ultimately show "?new ! nat (uids ! j) =
        fl_add (fl_mul alpha (rewards ! j))
               (fl_mul (fl_sub (Fin 1) alpha) (self_scores ! nat (uids ! j)))"
      using len by (simp add: moving_average_nth)
  qed
  have others: "\<forall>i < length self_scores. int i \<notin> set uids \<longrightarrow> ?new ! i =
        fl_add (fl_mul alpha (Fin 0)) (fl_mul (fl_sub (Fin 1) alpha) (self_scores ! i))"
  proof (intro allI impI)
    fix i assume i: "i < length self_scores" and "int i \<notin> set uids"
    then have "sc ! i = ?z ! i"
      using scatter_untouched [OF sc rng, of i] by (simp add: zeros_like_def)
    with i have "sc ! i = Fin 0" by (simp add: zeros_like_def)
    with i len show "?new ! i =
        fl_add (fl_mul alpha (Fin 0)) (fl_mul (fl_sub (Fin 1) alpha) (self_scores ! i))"
      by (simp add: moving_average_nth)
  qed
  from res len written others show ?thesis
    by (simp add: moving_average_length)
qed

theorem update_scores_moving_average_witness:
  "update_scores 340282346638528859811704183484516925440 (Fin (2 / 10))
      [Fin 0, Fin (1 / 2)] [Fin 1] [0] = Inr [Fin (2 / 10), Fin (4 / 10)]"
  using update_scores_moving_average [of "[Fin 1]" "[0]" "[Fin 0, Fin (1 / 2)]"
      340282346638528859811704183484516925440 "Fin (2 / 10)"]
  by (simp add: update_scores_def sanitize_rewards_def zeros_like_def np_index_def
        moving_average_def fl_sub_def)

text \<open>
  C7.  For every reward batch whose uids are indices into the score vector and whose
  rewards lie in [0,1], with the prior scores non-negative and finite and alpha in
  (0,1], the score vector after \<open>update_scores\<close> (whether the call returned or
  raised on a size mismatch) has the same length and only non-negative finite entries.
\<close>

theorem update_scores_keeps_length_nonneg_finite:
  assumes "\<forall>u \<in> set uids. 0 \<le> u \<and> u < int (length self_scores)"
    and "list_all in_unit_interval rewards"
    and "list_all nonneg_finite self_scores"
    and "0 < a" and "a \<le> 1"
  shows "length (scores_after self_scores
            (update_scores fmax (Fin a) self_scores rewards uids)) = length self_scores \<and>
         list_all nonneg_finite (scores_after self_scores
            (update_scores fmax (Fin a) self_scores rewards uids))"
proof -
  have san: "sanitize_rewards fmax rewards = rewards"
    using in_unit_interval_not_nan [OF assms(2)] by (simp add: sanitize_rewards_def)
  show ?thesis
  proof (cases "length rewards = 0 \<or> length uids = 0 \<or> length rewards \<noteq> length uids")
    case True
    then show ?thesis
      using assms(3) san by (auto simp: update_scores_def scores_after_def Let_def)
  next
    case False
    let ?z = "zeros_like self_scores"
    have rng: "\<forall>u \<in> set uids. 0 \<le> u \<and> u < int (length ?z)"
      using assms(1) by (simp add: zeros_like_def)
    from scatter_returns [OF rng] obtain sc where sc: "scatter ?z uids rewards = Inr sc"
      by blast
    have len: "length sc = length self_scores"
      using scatter_length [OF sc] by (simp add: zeros_like_def)
    have "list_all nonneg_finite ?z" by (simp add: zeros_like_def list_all_iff)
    moreover have "list_all nonneg_finite rewards"
      using assms(2) by (auto simp: list_all_iff in_unit_interval_nonneg_finite)
    ultimately have "list_all nonneg_finite sc"
      using scatter_list_all [OF sc] by blast
    then have "list_all nonneg_finite (moving_average (Fin a) sc self_scores)"
      using moving_average_nonneg_finite [OF len _ assms(3) assms(4) assms(5)] by blast
    moreover have "update_scores fmax (Fin a) self_scores rewards uids =
        Inr (moving_average (Fin a) sc self_scores)"
      using False san sc by (simp add: update_scores_def)
    ultimately show ?thesis
      using len by (simp add: scores_after_def moving_average_length)
  qed
qed

theorem update_scores_keeps_length_nonneg_finite_witness:
  "scores_after [Fin (1 / 2), Fin 0, Fin 3]
     (update_scores 340282346638528859811704183484516925440 (Fin (2 / 10))
        [Fin (1 / 2), Fin 0, Fin 3] [Fin 1, Fin (1 / 4)] [2, 0])
   = [Fin (45 / 100), Fin 0, Fin (26 / 10)] \<and>
   list_all nonneg_finite (scores_after [Fin (1 / 2), Fin 0, Fin 3]
     (update_scores 340282346638528859811704183484516925440 (Fin (2 / 10))
        [Fin (1 / 2), Fin 0, Fin 3] [Fin 1, Fin (1 / 4)] [2, 0]))"
  using update_scores_keeps_length_nonneg_finite
    [of "[2, 0]" "[Fin (1 / 2), Fin 0, Fin 3]" "[Fin 1, Fin (1 / 4)]" "2 / 10"
        340282346638528859811704183484516925440]
  by (simp add: update_scores_def sanitize_rewards_def zeros_like_def np_index_def
        moving_average_def scores_after_def fl_sub_def)

lemma sanitize_rewards_nth:
  assumes "j < length rewards"
  shows "(isnan (rewards ! j) \<longrightarrow> sanitize_rewards fmax rewards ! j = Fin 0) \<and>
     (0 < fmax \<and> (rewards ! j = PInf \<or> rewards ! j = NInf) \<longrightarrow>
        sanitize_rewards fmax rewards ! j \<noteq> Fin 0)"
proof (cases "list_ex isnan rewards")
  case True
  then show ?thesis
    using assms by (cases "rewards ! j") (auto simp: sanitize_rewards_def)
next
  case False
  moreover from False assms have "\<not> isnan (rewards ! j)"
    by (auto simp: list_ex_iff)
  ultimately show ?thesis by (auto simp: sanitize_rewards_def)
qed

lemma scatter_no_nan:
  assumes "scatter (zeros_like a) uids (sanitize_rewards fmax rewards) = Inr sc"
  shows "\<not> list_ex isnan sc"
proof -
  have "list_all (\<lambda>x. \<not> isnan x) (zeros_like a)"
    by (simp add: zeros_like_def list_all_iff)
  moreover have "list_all (\<lambda>x. \<not> isnan x) (sanitize_rewards fmax rewards)"
    using sanitize_rewards_no_nan [of fmax rewards] by (simp add: list_all_iff list_ex_iff)
  ultimately have "list_all (\<lambda>x. \<not> isnan x) sc"
    using scatter_list_all [OF assms] by blast
  then show ?thesis by (simp add: list_all_iff list_ex_iff)
qed

text \<open>
  C8, as the code has it.  \<open>update_scores\<close> goes on with the sanitized batch, which
  holds no NaN, and computes the moving average from the vector this batch is
  scattered into.  No entry of the scattered vector is NaN.  With distinct uids
  within the score vector, a NaN reward is scattered as 0, and an infinite reward is
  not: it is not replaced by 0.
\<close>

theorem update_scores_scatters_no_nan:
  "\<not> list_ex isnan (sanitize_rewards fmax rewards) \<and>
   (rewards \<noteq> [] \<and> length uids = length rewards \<longrightarrow>
      update_scores fmax alpha self_scores rewards uids =
        (case scatter (zeros_like self_scores) uids (sanitize_rewards fmax rewards) of
           Inl e \<Rightarrow> Inl e
         | Inr sc \<Rightarrow> Inr (moving_average alpha sc self_scores))) \<and>
   (\<forall>sc. scatter (zeros_like self_scores) uids (sanitize_rewards fmax rewards) = Inr sc \<longrightarrow>
      \<not> list_ex isnan sc \<and>
      (0 < fmax \<and> distinct uids \<and> length uids = length rewards \<and>
       (\<forall>u \<in> set uids. 0 \<le> u \<and> u < int (length self_scores)) \<longrightarrow>
         (\<forall>j < length uids.
            (isnan (rewards ! j) \<longrightarrow> sc ! nat (uids ! j) = Fin 0) \<and>
            (rewards ! j = PInf \<or> rewards ! j = NInf \<longrightarrow> sc ! nat (uids ! j) \<noteq> Fin 0))))"
proof (intro conjI allI impI)
  show "\<not> list_ex isnan (sanitize_rewards fmax rewards)"
    by (rule sanitize_rewards_no_nan)
next
  assume a: "rewards \<noteq> [] \<and> length uids = length rewards"
  then have "length (sanitize_rewards fmax rewards) = length uids" "uids \<noteq> []"
    by (auto simp: sanitize_rewards_length)
  moreover from this have "sanitize_rewards fmax rewards \<noteq> []" by auto
  ultimately show "update_scores fmax alpha self_scores rewards uids =
        (case scatter (zeros_like self_scores) uids (sanitize_rewards fmax rewards) of
           Inl e \<Rightarrow> Inl e
         | Inr sc \<Rightarrow> Inr (moving_average alpha sc self_scores))"
    by (simp add: update_scores_def Let_def)
next
  fix sc
  assume sc: "scatter (zeros_like self_scores) uids (sanitize_rewards fmax rewards) = Inr sc"
  then show "\<not> list_ex isnan sc" by (rule scatter_no_nan)
  fix j
  assume a: "0 < fmax \<and> distinct uids \<and> length uids = length rewards \<and>
       (\<forall>u \<in> set uids. 0 \<le> u \<and> u < int (length self_scores))"
    and j: "j < length uids"
  from a have rng: "\<forall>u \<in> set uids. 0 \<le> u \<and> u < int (length (zeros_like self_scores))"
    by (simp add: zeros_like_def)
  from a have len: "length uids = length (sanitize_rewards fmax rewards)"
    by (simp add: sanitize_rewards_length)
  from a have d: "distinct uids" by simp
  have w: "sc ! nat (uids ! j) = sanitize_rewards fmax rewards ! j"
    using scatter_written [OF sc rng d len j] .
  from a j have jr: "j < length rewards" by simp
  {
    assume "isnan (rewards ! j)"
    then show "sc ! nat (uids ! j) = Fin 0"
      using sanitize_rewards_nth [OF jr, of fmax] w by simp
  }
  {
    assume "rewards ! j = PInf \<or> rewards ! j = NInf"
    then show "sc ! nat (uids ! j) \<noteq> Fin 0"
      using sanitize_rewards_nth [OF jr, of fmax] w a by simp
  }
qed

theorem update_scores_scatters_no_nan_witness:
  "(case scatter (zeros_like [Fin 0, Fin 0, Fin 0]) [0, 1, 2]
       (sanitize_rewards 340282346638528859811704183484516925440
          [NaN, Fin (1 / 2), NInf]) of
      Inl e \<Rightarrow> False
    | Inr sc \<Rightarrow> sc ! 0 = Fin 0 \<and> sc ! 1 = Fin (1 / 2) \<and> sc ! 2 \<noteq> Fin 0 \<and>
        \<not> list_ex isnan sc \<and>
        update_scores 340282346638528859811704183484516925440 (Fin (2 / 10))
          [Fin 0, Fin 0, Fin 0] [NaN, Fin (1 / 2), NInf] [0, 1, 2]
        = Inr (moving_average (Fin (2 / 10)) sc [Fin 0, Fin 0, Fin 0]))"
  using update_scores_scatters_no_nan
    [of 340282346638528859811704183484516925440 "[NaN, Fin (1 / 2), NInf]" "[0, 1, 2]"
        "Fin (2 / 10)" "[Fin 0, Fin 0, Fin 0]"]
  by (simp add: update_scores_def sanitize_rewards_def zeros_like_def np_index_def)

theorem update_scores_infinite_reward_counterexample:
  "sanitize_rewards 340282346638528859811704183484516925440 [PInf] = [PInf] \<and>
   update_scores 340282346638528859811704183484516925440 (Fin (2 / 10)) [Fin 0] [PInf] [0]
     = Inr [PInf]"
  by (simp add: update_scores_def sanitize_rewards_def zeros_like_def np_index_def
        moving_average_def fl_sub_def inf_times_def)

subsection \<open>Emission weights\<close>

lemma divide_list_close:
  fixes N u eta :: real
  assumes "0 < N"
    and "\<forall>x \<in> set xs. \<exists>w. d (Fin x) (Fin N) = Fin w \<and> \<bar>w - x / N\<bar> \<le> u * (x / N) + eta"
  shows "\<exists>ws. map (\<lambda>x. d (Fin x) (Fin N)) xs = map Fin ws \<and> length ws = length xs \<and>
     \<bar>sum_list ws - sum_list xs / N\<bar> \<le> u * (sum_list xs / N) + real (length xs) * eta"
  using assms(2)
proof (induction xs)
  case Nil
  show ?case by simp
next
  case (Cons x xs)
  then obtain ws where ws: "map (\<lambda>x. d (Fin x) (Fin N)) xs = map Fin ws"
    "length ws = length xs"
    "\<bar>sum_list ws - sum_list xs / N\<bar> \<le> u * (sum_list xs / N) + real (length xs) * eta"
    by auto
  from Cons.prems obtain w where w: "d (Fin x) (Fin N) = Fin w"
    "\<bar>w - x / N\<bar> \<le> u * (x / N) + eta"
    by auto
  have "sum_list (w # ws) - sum_list (x # xs) / N = (w - x / N) + (sum_list ws - sum_list xs / N)"
    by (simp add: add_divide_distrib)
  then have "\<bar>sum_list (w # ws) - sum_list (x # xs) / N\<bar> \<le>
      \<bar>w - x / N\<bar> + \<bar>sum_list ws - sum_list xs / N\<bar>"
    by linarith
  also have "\<dots> \<le> (u * (x / N) + eta) + (u * (sum_list xs / N) + real (length xs) * eta)"
    using w(2) ws(3) by linarith
  also have "\<dots> = u * (sum_list (x # xs) / N) + real (length (x # xs)) * eta"
    by (simp add: add_divide_distrib algebra_simps)
  finally have "\<bar>sum_list (w # ws) - sum_list (x # xs) / N\<bar> \<le>
      u * (sum_list (x # xs) / N) + real (length (x # xs)) * eta" .
  moreover have "map (\<lambda>x. d (Fin x) (Fin N)) (x # xs) = map Fin (w # ws)"
    using w(1) ws(1) by simp
  moreover have "length (w # ws) = length (x # xs)" using ws(2) by simp
  ultimately show ?case by blast
qed

lemma ratio_close:
  fixes N S e :: real
  assumes "0 < S" and "\<bar>N - S\<bar> \<le> e * S" and "0 \<le> e" and "e < 1"
  shows "0 < N" and "S / N \<le> 1 / (1 - e)" and "\<bar>S / N - 1\<bar> \<le> e / (1 - e)"
proof -
  have "S - N \<le> e * S" using assms(2) by linarith
  then have lo: "(1 - e) * S \<le> N" by (simp add: algebra_simps)
  have pos: "0 < (1 - e) * S" using assms(1,4) by simp
  with lo show N: "0 < N" by linarith
  have "S / N \<le> S / ((1 - e) * S)"
    using lo pos assms(1) by (intro divide_left_mono) simp_all
  also have "\<dots> = 1 / (1 - e)" using assms(1) by simp
  finally show q: "S / N \<le> 1 / (1 - e)" .
  have "S / N - 1 = (S - N) / N" using N by (simp add: diff_divide_distrib)
  then have "\<bar>S / N - 1\<bar> = \<bar>S - N\<bar> / N" using N by simp
  also have "\<dots> \<le> (e * S) / N"
    using assms(2) N by (intro divide_right_mono) simp_all
  also have "\<dots> = e * (S / N)" by simp
  also have "\<dots> \<le> e * (1 / (1 - e))"
    using q assms(3) by (rule mult_left_mono)
  finally show "\<bar>S / N - 1\<bar> \<le> e / (1 - e)" by simp
qed

lemma sum_list_pos_nonneg:
  fixes xs :: "real list"
  shows "\<forall>x \<in> set xs. 0 \<le> x \<Longrightarrow> \<exists>x \<in> set xs. x \<noteq> 0 \<Longrightarrow> 0 < sum_list xs"
proof (induction xs)
  case Nil
  then show ?case by simp
next
  case (Cons x xs)
  have nn: "0 \<le> sum_list xs" using Cons.prems(1) by (simp add: sum_list_nonneg)
  show ?case
  proof (cases "x = 0")
    case True
    with Cons show ?thesis by auto
  next
    case False
    with Cons.prems(1) have "0 < x" by simp
    with nn show ?thesis by simp
  qed
qed

lemma raw_weights_sum_near_one:
  assumes "self_scores = map Fin xs" and "\<forall>x \<in> set xs. 0 \<le> x" and "\<exists>x \<in> set xs. x \<noteq> 0"
    and "l1_norm np self_scores = Fin N" and "\<bar>N - sum_list xs\<bar> \<le> e * sum_list xs"
    and "0 \<le> e" and "e < 1" and "0 \<le> u"
    and "\<forall>x \<in> set xs. \<exists>w. true_divide np (Fin x) (Fin N) = Fin w \<and>
           \<bar>w - x / N\<bar> \<le> u * (x / N) + eta"
  shows "raw_weights np self_scores = map (\<lambda>s. true_divide np s (Fin N)) self_scores"
    and "\<exists>ws. raw_weights np self_scores = map Fin ws \<and>
           \<bar>sum_list ws - 1\<bar> \<le> (u + e) / (1 - e) + real (length xs) * eta"
proof -
  let ?S = "sum_list xs"
  have S: "0 < ?S" using assms(2,3) by (rule sum_list_pos_nonneg)
  note r = ratio_close [OF S assms(5,6,7)]
  from r(1) have "safe_norm (Fin N) = Fin N" by (simp add: safe_norm_def)
  with assms(4) show raw: "raw_weights np self_scores =
      map (\<lambda>s. true_divide np s (Fin N)) self_scores"
    by (simp add: raw_weights_def)
  from divide_list_close [where d = "true_divide np", OF r(1) assms(9)] obtain ws where
    ws: "map (\<lambda>x. true_divide np (Fin x) (Fin N)) xs = map Fin ws"
    "\<bar>sum_list ws - ?S / N\<bar> \<le> u * (?S / N) + real (length xs) * eta"
    by blast
  have "raw_weights np self_scores = map Fin ws"
    using raw ws(1) by (simp add: assms(1) comp_def)
  moreover have "\<bar>sum_list ws - 1\<bar> \<le> (u + e) / (1 - e) + real (length xs) * eta"
  proof -
    have "\<bar>sum_list ws - 1\<bar> \<le> \<bar>sum_list ws - ?S / N\<bar> + \<bar>?S / N - 1\<bar>" by linarith
    also have "\<dots> \<le> (u * (?S / N) + real (length xs) * eta) + e / (1 - e)"
      using ws(2) r(3) by linarith
    also have "u * (?S / N) \<le> u * (1 / (1 - e))"
      using r(2) assms(8) by (rule mult_left_mono)
    finally have "\<bar>sum_list ws - 1\<bar> \<le>
        u * (1 / (1 - e)) + real (length xs) * eta + e / (1 - e)"
      by simp
    then show ?thesis by (simp add: add_divide_distrib)
  qed
  ultimately show "\<exists>ws. raw_weights np self_scores = map Fin ws \<and>
      \<bar>sum_list ws - 1\<bar> \<le> (u + e) / (1 - e) + real (length xs) * eta"
    by blast
qed

lemma set_weights_first_call:
  assumes "\<not> list_all (\<lambda>s. s = Fin 0) (scores self)"
  shows "\<exists>rest. calls (snd (set_weights np L self)) =
     calls self @ ProcessWeights (metagraph_uids (axons self)) (raw_weights np (scores self)) # rest"
  using assms by (auto simp: set_weights_def Let_def split: option.splits)

text \<open>
  C4, as the code has it.  Let the scores be finite, non-negative and not all zero.
  When their computed L1 norm is finite, within relative error \<open>e\<close> of their exact
  sum, and every quotient is finite, within relative error \<open>u\<close> and absolute error
  \<open>eta\<close> of the exact quotient, then \<open>raw_weights\<close> is the scores divided
  elementwise by that norm and its entries sum to 1 up to
  \<open>(u + e) / (1 - e) + n * eta\<close>; \<open>set_weights\<close> hands exactly these weights to the
  weight shaping.  When the norm is zero or NaN, 1 is used in its place.  An infinite
  norm, of an infinite score or of a sum that overflows, is kept and divided by.
\<close>

theorem raw_weights_normalised:
  "(scores self = map Fin xs \<and> (\<forall>x \<in> set xs. 0 \<le> x) \<and> (\<exists>x \<in> set xs. x \<noteq> 0) \<and>
    l1_norm np (scores self) = Fin N \<and> \<bar>N - sum_list xs\<bar> \<le> e * sum_list xs \<and>
    0 \<le> e \<and> e < 1 \<and> 0 \<le> u \<and>
    (\<forall>x \<in> set xs. \<exists>w. true_divide np (Fin x) (Fin N) = Fin w \<and>
        \<bar>w - x / N\<bar> \<le> u * (x / N) + eta) \<longrightarrow>
      raw_weights np (scores self) = map (\<lambda>s. true_divide np s (Fin N)) (scores self) \<and>
      (\<exists>ws. raw_weights np (scores self) = map Fin ws \<and>
         \<bar>sum_list ws - 1\<bar> \<le> (u + e) / (1 - e) + real (length xs) * eta) \<and>
      (\<exists>rest. calls (snd (set_weights np L self)) =
         calls self @ ProcessWeights (metagraph_uids (axons self))
           (raw_weights np (scores self)) # rest)) \<and>
   (l1_norm np (scores self) = Fin 0 \<or> isnan (l1_norm np (scores self)) \<longrightarrow>
      raw_weights np (scores self) = map (\<lambda>s. true_divide np s (Fin 1)) (scores self)) \<and>
   (l1_norm np (scores self) = PInf \<longrightarrow>
      raw_weights np (scores self) = map (\<lambda>s. true_divide np s PInf) (scores self))"
proof (intro conjI impI)
  assume a: "scores self = map Fin xs \<and> (\<forall>x \<in> set xs. 0 \<le> x) \<and> (\<exists>x \<in> set xs. x \<noteq> 0) \<and>
    l1_norm np (scores self) = Fin N \<and> \<bar>N - sum_list xs\<bar> \<le> e * sum_list xs \<and>
    0 \<le> e \<and> e < 1 \<and> 0 \<le> u \<and>
    (\<forall>x \<in> set xs. \<exists>w. true_divide np (Fin x) (Fin N) = Fin w \<and>
        \<bar>w - x / N\<bar> \<le> u * (x / N) + eta)"
  then have h: "scores self = map Fin xs" "\<forall>x \<in> set xs. 0 \<le> x" "\<exists>x \<in> set xs. x \<noteq> 0"
    "l1_norm np (scores self) = Fin N" "\<bar>N - sum_list xs\<bar> \<le> e * sum_list xs"
    "0 \<le> e" "e < 1" "0 \<le> u"
    "\<forall>x \<in> set xs. \<exists>w. true_divide np (Fin x) (Fin N) = Fin w \<and>
        \<bar>w - x / N\<bar> \<le> u * (x / N) + eta"
    by blast+
  show "raw_weights np (scores self) = map (\<lambda>s. true_divide np s (Fin N)) (scores self)"
    by (rule raw_weights_sum_near_one(1) [OF h])
  show "\<exists>ws. raw_weights np (scores self) = map Fin ws \<and>
         \<bar>sum_list ws - 1\<bar> \<le> (u + e) / (1 - e) + real (length xs) * eta"
    by (rule raw_weights_sum_near_one(2) [OF h])
  from h(1,3) have "\<not> list_all (\<lambda>s. s = Fin 0) (scores self)"
    by (auto simp: list_all_iff)
  then show "\<exists>rest. calls (snd (set_weights np L self)) =
         calls self @ ProcessWeights (metagraph_uids (axons self))
           (raw_weights np (scores self)) # rest"
    by (rule set_weights_first_call)
next
  assume "l1_norm np (scores self) = Fin 0 \<or> isnan (l1_norm np (scores self))"
  then show "raw_weights np (scores self) = map (\<lambda>s. true_divide np s (Fin 1)) (scores self)"
    by (auto simp: raw_weights_def safe_norm_def)
next
  assume "l1_norm np (scores self) = PInf"
  then show "raw_weights np (scores self) = map (\<lambda>s. true_divide np s PInf) (scores self)"
    by (simp add: raw_weights_def safe_norm_def)
qed

text \<open>
  An instance in float32, with scores \<open>[1, 2]\<close>: the norm 3 is exact, the quotients
  \<open>1/3\<close> and \<open>2/3\<close> are rounded to \<open>11184811 / 2^25\<close> and \<open>11184811 / 2^24\<close>
  (relative error \<open>2^-25\<close>), and the weights sum to \<open>1 + 2^-25\<close>.
\<close>

theorem raw_weights_normalised_witness:
  "(raw_weights
      \<lparr>add_reduce = fl_sum,
       true_divide = (\<lambda>a b. if a = Fin 1 \<and> b = Fin 3 then Fin (11184811 / 33554432)
          else if a = Fin 2 \<and> b = Fin 3 then Fin (11184811 / 16777216) else fl_div a b)\<rparr>
      [Fin 1, Fin 2]
     = [Fin (11184811 / 33554432), Fin (11184811 / 16777216)] \<and>
    (\<exists>ws. raw_weights
      \<lparr>add_reduce = fl_sum,
       true_divide = (\<lambda>a b. if a = Fin 1 \<and> b = Fin 3 then Fin (11184811 / 33554432)
          else if a = Fin 2 \<and> b = Fin 3 then Fin (11184811 / 16777216) else fl_div a b)\<rparr>
      [Fin 1, Fin 2] = map Fin ws \<and> \<bar>sum_list ws - 1\<bar> \<le> 1 / 16777216) \<and>
    calls (snd (set_weights
       \<lparr>add_reduce = fl_sum,
        true_divide = (\<lambda>a b. if a = Fin 1 \<and> b = Fin 3 then Fin (11184811 / 33554432)
          else if a = Fin 2 \<and> b = Fin 3 then Fin (11184811 / 16777216) else fl_div a b)\<rparr>
       \<lparr>process_weights_for_netuid = (\<lambda>u w. Some (u, w)),
        convert_weights_and_uids_for_emit = (\<lambda>u w. None)\<rparr>
       \<lparr>scores = [Fin 1, Fin 2], hotkeys = [''a'', ''b''],
        axons = [\<lparr>hotkey = ''a'', ip = ''10.0.0.1'', port = 8091\<rparr>,
                 \<lparr>hotkey = ''b'', ip = ''10.0.0.2'', port = 8091\<rparr>],
        calls = []\<rparr>))
     = [ProcessWeights [0, 1] [Fin (11184811 / 33554432), Fin (11184811 / 16777216)],
        ConvertWeights [0, 1] [Fin (11184811 / 33554432), Fin (11184811 / 16777216)]]) \<and>
   (isnan (l1_norm exact_numpy [NaN, Fin 2]) \<and>
    raw_weights exact_numpy [NaN, Fin 2] = [NaN, Fin 2]) \<and>
   (l1_norm exact_numpy [PInf, Fin 2] = PInf \<and>
    raw_weights exact_numpy [PInf, Fin 2] = [NaN, Fin 0])"
proof -
  let ?np = "\<lparr>add_reduce = fl_sum,
       true_divide = (\<lambda>a b. if a = Fin 1 \<and> b = Fin 3 then Fin (11184811 / 33554432)
          else if a = Fin 2 \<and> b = Fin 3 then Fin (11184811 / 16777216) else fl_div a b)\<rparr>"
  let ?L = "\<lparr>process_weights_for_netuid = (\<lambda>u w. Some (u, w)),
        convert_weights_and_uids_for_emit = (\<lambda>u w. None)\<rparr>"
  let ?self = "\<lparr>scores = [Fin 1, Fin 2], hotkeys = [''a'', ''b''],
        axons = [\<lparr>hotkey = ''a'', ip = ''10.0.0.1'', port = 8091\<rparr>,
                 \<lparr>hotkey = ''b'', ip = ''10.0.0.2'', port = 8091\<rparr>],
        calls = []\<rparr>"
  have quotients: "\<forall>x \<in> set [1, 2]. \<exists>w. true_divide ?np (Fin x) (Fin 3) = Fin w \<and>
      \<bar>w - x / 3\<bar> \<le> 1 / 16777216 * (x / 3) + 0"
  proof
    fix x :: real assume "x \<in> set [1, 2]"
    then consider "x = 1" | "x = 2" by auto
    then show "\<exists>w. true_divide ?np (Fin x) (Fin 3) = Fin w \<and>
      \<bar>w - x / 3\<bar> \<le> 1 / 16777216 * (x / 3) + 0"
    proof cases
      case 1
      show ?thesis unfolding 1 by (rule exI [of _ "11184811 / 33554432"]) simp
    next
      case 2
      show ?thesis unfolding 2 by (rule exI [of _ "11184811 / 16777216"]) simp
    qed
  qed
  have "scores ?self = map Fin [1, 2] \<and> (\<forall>x \<in> set [1, 2::real]. 0 \<le> x) \<and>
      (\<exists>x \<in> set [1, 2::real]. x \<noteq> 0) \<and>
      l1_norm ?np (scores ?self) = Fin 3 \<and> \<bar>3 - sum_list [1, 2]\<bar> \<le> 0 * sum_list [1, 2::real] \<and>
      (0::real) \<le> 0 \<and> (0::real) < 1 \<and> (0::real) \<le> 1 / 16777216 \<and>
      (\<forall>x \<in> set [1, 2]. \<exists>w. true_divide ?np (Fin x) (Fin 3) = Fin w \<and>
          \<bar>w - x / 3\<bar> \<le> 1 / 16777216 * (x / 3) + 0)"
    using quotients by (simp add: l1_norm_def fl_sum_def)
  from raw_weights_normalised
      [where self = ?self and xs = "[1, 2]" and N = 3 and e = 0 and u = "1 / 16777216"
        and eta = 0 and np = ?np and L = ?L, THEN conjunct1, THEN mp, OF this]
  have "\<exists>ws. raw_weights ?np (scores ?self) = map Fin ws \<and>
      \<bar>sum_list ws - 1\<bar> \<le> (1 / 16777216 + 0) / (1 - 0) + real (length [1, 2::real]) * 0"
    by blast
  then have near: "\<exists>ws. raw_weights ?np [Fin 1, Fin 2] = map Fin ws \<and>
      \<bar>sum_list ws - 1\<bar> \<le> 1 / 16777216"
    by simp
  have raw: "raw_weights ?np [Fin 1, Fin 2] =
      [Fin (11184811 / 33554432), Fin (11184811 / 16777216)]"
    by (simp add: raw_weights_def l1_norm_def fl_sum_def safe_norm_def)
  have trace: "calls (snd (set_weights ?np ?L ?self)) =
      [ProcessWeights [0, 1] [Fin (11184811 / 33554432), Fin (11184811 / 16777216)],
       ConvertWeights [0, 1] [Fin (11184811 / 33554432), Fin (11184811 / 16777216)]]"
    by (simp add: set_weights_def raw metagraph_uids_def upt_rec Let_def)
  have specials: "(isnan (l1_norm exact_numpy [NaN, Fin 2]) \<and>
      raw_weights exact_numpy [NaN, Fin 2] = [NaN, Fin 2]) \<and>
     (l1_norm exact_numpy [PInf, Fin 2] = PInf \<and>
      raw_weights exact_numpy [PInf, Fin 2] = [NaN, Fin 0])"
    using raw_weights_normalised
      [where self = "\<lparr>scores = [NaN, Fin 2], hotkeys = [], axons = [], calls = []\<rparr>"
        and np = exact_numpy]
      raw_weights_normalised
      [where self = "\<lparr>scores = [PInf, Fin 2], hotkeys = [], axons = [], calls = []\<rparr>"
        and np = exact_numpy]
    by (simp add: l1_norm_def fl_sum_def exact_numpy_def)
  from raw near trace specials show ?thesis by blast
qed

theorem raw_weights_infinite_norm_counterexample:
  "l1_norm exact_numpy [PInf, Fin 2] = PInf \<and>
   safe_norm (l1_norm exact_numpy [PInf, Fin 2]) \<noteq> Fin 1 \<and>
   raw_weights exact_numpy [PInf, Fin 2] = [NaN, Fin 0] \<and>
   l1_norm (ranged_numpy 340282346638528859811704183484516925440)
     [Fin 170141183460469231731687303715884105728,
      Fin 170141183460469231731687303715884105728] = PInf \<and>
   raw_weights (ranged_numpy 340282346638528859811704183484516925440)
     [Fin 170141183460469231731687303715884105728,
      Fin 170141183460469231731687303715884105728] = [Fin 0, Fin 0]"
  by (simp add: raw_weights_def l1_norm_def fl_sum_def safe_norm_def exact_numpy_def
        ranged_numpy_def)

text \<open>
  C5.  When every entry of the score vector is zero, \<open>set_weights\<close> returns without
  raising and leaves the validator as it was: no weight shaping, no quantization and
  no submission of weights is added to the trace of calls, and the scores are
  unchanged.
\<close>

theorem set_weights_all_zero_skips:
  assumes "\<forall>s \<in> set (scores self). s = Fin 0"
  shows "set_weights np L self = (None, self)"
  using assms by (simp add: set_weights_def list_all_iff)

theorem set_weights_all_zero_skips_witness:
  "set_weights exact_numpy
     \<lparr>process_weights_for_netuid = (\<lambda>u w. Some (u, w)),
      convert_weights_and_uids_for_emit = (\<lambda>u w. Some (u, map (\<lambda>x. 0) w))\<rparr>
     \<lparr>scores = [Fin 0, Fin 0], hotkeys = [''a'', ''b''],
      axons = [\<lparr>hotkey = ''a'', ip = ''10.0.0.1'', port = 8091\<rparr>,
               \<lparr>hotkey = ''b'', ip = ''10.0.0.2'', port = 8091\<rparr>],
      calls = []\<rparr>
   = (None,
     \<lparr>scores = [Fin 0, Fin 0], hotkeys = [''a'', ''b''],
      axons = [\<lparr>hotkey = ''a'', ip = ''10.0.0.1'', port = 8091\<rparr>,
               \<lparr>hotkey = ''b'', ip = ''10.0.0.2'', port = 8091\<rparr>],
      calls = []\<rparr>)"
  using set_weights_all_zero_skips
    [where self = "\<lparr>scores = [Fin 0, Fin 0], hotkeys = [''a'', ''b''],
      axons = [\<lparr>hotkey = ''a'', ip = ''10.0.0.1'', port = 8091\<rparr>,
               \<lparr>hotkey = ''b'', ip = ''10.0.0.2'', port = 8091\<rparr>],
      calls = []\<rparr>"
     and np = exact_numpy
     and L = "\<lparr>process_weights_for_netuid = (\<lambda>u w. Some (u, w)),
      convert_weights_and_uids_for_emit = (\<lambda>u w. Some (u, map (\<lambda>x. 0) w))\<rparr>"]
  by simp

subsection \<open>Membership resync\<close>

lemma zero_replaced_length:
  "zero_replaced uid olds news sc = Inl sc' \<or> zero_replaced uid olds news sc = Inr sc' \<Longrightarrow>
     length sc' = length sc"
  by (induction olds arbitrary: uid sc) (auto split: if_splits)

lemma zero_replaced_same:
  "zero_replaced (length pre) olds (pre @ olds) sc = Inr sc"
proof (induction olds arbitrary: pre)
  case Nil
  show ?case by simp
next
  case (Cons h rest)
  from Cons [of "pre @ [h]"] show ?case by simp
qed

lemma zero_replaced_ok:
  "uid + length olds \<le> length news \<Longrightarrow> uid + length olds \<le> length sc \<Longrightarrow>
     \<exists>sc'. zero_replaced uid olds news sc = Inr sc' \<and> length sc' = length sc \<and>
       (\<forall>i < length sc. sc' ! i =
          (if uid \<le> i \<and> i < uid + length olds \<and> olds ! (i - uid) \<noteq> news ! i
           then Fin 0 else sc ! i))"
proof (induction olds arbitrary: uid sc)
  case Nil
  then show ?case by auto
next
  case (Cons h rest)
  let ?sc1 = "if h \<noteq> news ! uid then sc[uid := Fin 0] else sc"
  from Cons.prems have step: "zero_replaced uid (h # rest) news sc =
      zero_replaced (Suc uid) rest news ?sc1"
    by simp
  from Cons.prems have "Suc uid + length rest \<le> length news"
    "Suc uid + length rest \<le> length ?sc1" by simp_all
  from Cons.IH [OF this] obtain sc' where sc':
    "zero_replaced (Suc uid) rest news ?sc1 = Inr sc'" "length sc' = length ?sc1"
    "\<forall>i < length ?sc1. sc' ! i =
        (if Suc uid \<le> i \<and> i < Suc uid + length rest \<and> rest ! (i - Suc uid) \<noteq> news ! i
         then Fin 0 else ?sc1 ! i)"
    by blast
  have "\<forall>i < length sc. sc' ! i =
      (if uid \<le> i \<and> i < uid + length (h # rest) \<and> (h # rest) ! (i - uid) \<noteq> news ! i
       then Fin 0 else sc ! i)"
  proof (intro allI impI)
    fix i assume i: "i < length sc"
    show "sc' ! i =
      (if uid \<le> i \<and> i < uid + length (h # rest) \<and> (h # rest) ! (i - uid) \<noteq> news ! i
       then Fin 0 else sc ! i)"
    proof (cases "i = uid")
      case True
      with sc'(3) i show ?thesis by simp
    next
      case False
      show ?thesis
      proof (cases "uid < i")
        case True
        then have "(h # rest) ! (i - uid) = rest ! (i - Suc uid)"
          by (simp add: nth_Cons')
        with True sc'(3) i show ?thesis by auto
      next
        case False
        with \<open>i \<noteq> uid\<close> sc'(3) i show ?thesis by auto
      qed
    qed
  qed
  with step sc'(1,2) show ?case by simp
qed

lemma zero_replaced_shrink:
  "length news < uid + length olds \<Longrightarrow> uid \<le> length news \<Longrightarrow>
     \<exists>sc'. zero_replaced uid olds news sc = Inl sc'"
proof (induction olds arbitrary: uid sc)
  case Nil
  then show ?case by simp
next
  case (Cons h rest)
  show ?case
  proof (cases "length news \<le> uid \<or> (h \<noteq> news ! uid \<and> length sc \<le> uid)")
    case True
    then show ?thesis by auto
  next
    case False
    with Cons.prems have "length news < Suc uid + length rest" "Suc uid \<le> length news"
      by simp_all
    from Cons.IH [OF this] False show ?thesis by simp
  qed
qed

lemma grow_scores_length:
  "len_hotkeys < n \<Longrightarrow> length (grow_scores n len_hotkeys sc) = n"
  by (simp add: grow_scores_def zeros_def Let_def)

lemma grow_scores_nth:
  "len_hotkeys < n \<Longrightarrow> len_hotkeys \<le> length sc \<Longrightarrow> i < n \<Longrightarrow>
     grow_scores n len_hotkeys sc ! i = (if i < len_hotkeys then sc ! i else Fin 0)"
  by (simp add: grow_scores_def zeros_def Let_def nth_append min_absorb1)

text \<open>
  A resync that returns keeps the state consistent, so consistency holds from
  \<open>__init__\<close> on for as long as no resync raises.
\<close>

lemma resync_metagraph_consistent:
  assumes "consistent self" and "fst (resync_metagraph self synced) = None"
  shows "consistent (snd (resync_metagraph self synced))"
proof (cases "axons self = synced")
  case True
  with assms(1) show ?thesis by (simp add: resync_metagraph_def consistent_def)
next
  case False
  from assms(1) have len: "length (scores self) = length (hotkeys self)"
    by (simp add: consistent_def)
  show ?thesis
  proof (cases "zero_replaced 0 (hotkeys self) (metagraph_hotkeys synced) (scores self)")
    case (Inl sc)
    with False assms(2) show ?thesis by (simp add: resync_metagraph_def Let_def)
  next
    case (Inr sc)
    then have sclen: "length sc = length (scores self)"
      using zero_replaced_length by blast
    have "\<not> length (metagraph_hotkeys synced) < 0 + length (hotkeys self)"
    proof
      assume "length (metagraph_hotkeys synced) < 0 + length (hotkeys self)"
      from zero_replaced_shrink [where sc = "scores self", OF this] Inr show False by auto
    qed
    then have "length (hotkeys self) \<le> length synced"
      by (simp add: metagraph_hotkeys_def)
    with False Inr sclen len show ?thesis
      by (auto simp: resync_metagraph_def Let_def consistent_def metagraph_hotkeys_def
            metagraph_n_def grow_scores_length)
  qed
qed

text \<open>
  C6.  When the hotkeys of the synced metagraph are the stored hotkeys, in the same
  order, \<open>resync_metagraph\<close> returns with the scores unchanged.  From a consistent
  state and a synced metagraph of at least the stored size, it returns with one score
  per slot of the synced metagraph: a slot below the old size whose hotkey is
  unchanged keeps its score, a slot whose hotkey changed holds 0, and the slots added
  by growth hold 0.
\<close>

theorem resync_metagraph_scores:
  "(metagraph_hotkeys synced = hotkeys self \<longrightarrow>
      fst (resync_metagraph self synced) = None \<and>
      scores (snd (resync_metagraph self synced)) = scores self) \<and>
   (consistent self \<and> length (hotkeys self) \<le> length synced \<longrightarrow>
      fst (resync_metagraph self synced) = None \<and>
      length (scores (snd (resync_metagraph self synced))) = length synced \<and>
      (\<forall>i < length synced. scores (snd (resync_metagraph self synced)) ! i =
         (if i < length (hotkeys self) \<and> hotkeys self ! i = hotkey (synced ! i)
          then scores self ! i else Fin 0)))"
proof (intro conjI impI)
  assume same: "metagraph_hotkeys synced = hotkeys self"
  have "zero_replaced 0 (hotkeys self) (metagraph_hotkeys synced) (scores self) =
      Inr (scores self)"
    using zero_replaced_same [of "[]" "hotkeys self" "scores self"] same by simp
  with same show "fst (resync_metagraph self synced) = None"
    and "scores (snd (resync_metagraph self synced)) = scores self"
    by (simp_all add: resync_metagraph_def Let_def)
next
  assume a: "consistent self \<and> length (hotkeys self) \<le> length synced"
  let ?m = "length (hotkeys self)" and ?n = "length synced"
  let ?news = "metagraph_hotkeys synced"
  from a have hk: "hotkeys self = metagraph_hotkeys (axons self)"
    and len: "length (scores self) = ?m" and le: "?m \<le> ?n"
    by (auto simp: consistent_def)
  let ?goal = "\<lambda>res. fst res = None \<and> length (scores (snd res)) = ?n \<and>
      (\<forall>i < ?n. scores (snd res) ! i =
         (if i < ?m \<and> hotkeys self ! i = hotkey (synced ! i)
          then scores self ! i else Fin 0))"
  have "?goal (resync_metagraph self synced)"
  proof (cases "axons self = synced")
    case True
    with hk len show ?thesis
      by (simp add: resync_metagraph_def metagraph_hotkeys_def)
  next
    case False
    have "0 + ?m \<le> length ?news" "0 + ?m \<le> length (scores self)"
      using le len by (simp_all add: metagraph_hotkeys_def)
    from zero_replaced_ok [OF this] obtain sc where sc:
      "zero_replaced 0 (hotkeys self) ?news (scores self) = Inr sc"
      "length sc = length (scores self)"
      "\<forall>i < length (scores self). sc ! i =
          (if i < ?m \<and> hotkeys self ! i \<noteq> ?news ! i then Fin 0 else scores self ! i)"
      by auto
    show ?thesis
    proof (cases "?m < ?n")
      case True
      have res: "resync_metagraph self synced =
          (None, self\<lparr>axons := synced, scores := grow_scores ?n ?m sc, hotkeys := ?news\<rparr>)"
        using False sc(1) True
        by (simp add: resync_metagraph_def Let_def metagraph_hotkeys_def metagraph_n_def)
      have "\<forall>i < ?n. grow_scores ?n ?m sc ! i =
         (if i < ?m \<and> hotkeys self ! i = hotkey (synced ! i)
          then scores self ! i else Fin 0)"
      proof (intro allI impI)
        fix i assume i: "i < ?n"
        have "grow_scores ?n ?m sc ! i = (if i < ?m then sc ! i else Fin 0)"
          using grow_scores_nth [OF True _ i, of sc] sc(2) len by simp
        with sc(3) len i show "grow_scores ?n ?m sc ! i =
           (if i < ?m \<and> hotkeys self ! i = hotkey (synced ! i)
            then scores self ! i else Fin 0)"
          by (simp add: metagraph_hotkeys_def)
      qed
      with res True show ?thesis by (simp add: grow_scores_length)
    next
      case False
      with le have eq: "?m = ?n" by simp
      have res: "resync_metagraph self synced =
          (None, self\<lparr>axons := synced, scores := sc, hotkeys := ?news\<rparr>)"
        using \<open>axons self \<noteq> synced\<close> sc(1) eq
        by (simp add: resync_metagraph_def Let_def metagraph_hotkeys_def)
      have "\<forall>i < ?n. sc ! i =
         (if i < ?m \<and> hotkeys self ! i = hotkey (synced ! i)
          then scores self ! i else Fin 0)"
        using sc(3) len eq by (simp add: metagraph_hotkeys_def)
      with res sc(2) len eq show ?thesis by simp
    qed
  qed
  then show "fst (resync_metagraph self synced) = None"
    and "length (scores (snd (resync_metagraph self synced))) = length synced"
    and "\<forall>i < length synced. scores (snd (resync_metagraph self synced)) ! i =
         (if i < length (hotkeys self) \<and> hotkeys self ! i = hotkey (synced ! i)
          then scores self ! i else Fin 0)"
    by blast+
qed

theorem resync_metagraph_scores_witness:
  "scores (snd (resync_metagraph
      \<lparr>scores = [Fin 1, Fin 2, Fin 3, Fin 4], hotkeys = [''a'', ''b'', ''c'', ''d''],
       axons = [\<lparr>hotkey = ''a'', ip = ''10.0.0.1'', port = 8091\<rparr>,
                \<lparr>hotkey = ''b'', ip = ''10.0.0.2'', port = 8091\<rparr>,
                \<lparr>hotkey = ''c'', ip = ''10.0.0.3'', port = 8091\<rparr>,
                \<lparr>hotkey = ''d'', ip = ''10.0.0.4'', port = 8091\<rparr>],
       calls = []\<rparr>
      [\<lparr>hotkey = ''a'', ip = ''10.0.0.1'', port = 8091\<rparr>,
       \<lparr>hotkey = ''b'', ip = ''10.0.0.2'', port = 8091\<rparr>,
       \<lparr>hotkey = ''x'', ip = ''10.0.0.9'', port = 8091\<rparr>,
       \<lparr>hotkey = ''d'', ip = ''10.0.0.4'', port = 8091\<rparr>,
       \<lparr>hotkey = ''e'', ip = ''10.0.0.5'', port = 8091\<rparr>,
       \<lparr>hotkey = ''f'', ip = ''10.0.0.6'', port = 8091\<rparr>]))
   = [Fin 1, Fin 2, Fin 0, Fin 4, Fin 0, Fin 0] \<and>
   scores (snd (resync_metagraph
      \<lparr>scores = [Fin 1, Fin 2], hotkeys = [''a'', ''b''],
       axons = [\<lparr>hotkey = ''a'', ip = ''10.0.0.1'', port = 8091\<rparr>,
                \<lparr>hotkey = ''b'', ip = ''10.0.0.2'', port = 8091\<rparr>],
       calls = []\<rparr>
      [\<lparr>hotkey = ''a'', ip = ''10.0.0.1'', port = 9000\<rparr>,
       \<lparr>hotkey = ''b'', ip = ''10.0.0.2'', port = 8091\<rparr>]))
   = [Fin 1, Fin 2]"
  using resync_metagraph_scores
    [of "[\<lparr>hotkey = ''a'', ip = ''10.0.0.1'', port = 8091\<rparr>,
       \<lparr>hotkey = ''b'', ip = ''10.0.0.2'', port = 8091\<rparr>,
       \<lparr>hotkey = ''x'', ip = ''10.0.0.9'', port = 8091\<rparr>,
       \<lparr>hotkey = ''d'', ip = ''10.0.0.4'', port = 8091\<rparr>,
       \<lparr>hotkey = ''e'', ip = ''10.0.0.5'', port = 8091\<rparr>,
       \<lparr>hotkey = ''f'', ip = ''10.0.0.6'', port = 8091\<rparr>]"
      "\<lparr>scores = [Fin 1, Fin 2, Fin 3, Fin 4], hotkeys = [''a'', ''b'', ''c'', ''d''],
       axons = [\<lparr>hotkey = ''a'', ip = ''10.0.0.1'', port = 8091\<rparr>,
                \<lparr>hotkey = ''b'', ip = ''10.0.0.2'', port = 8091\<rparr>,
                \<lparr>hotkey = ''c'', ip = ''10.0.0.3'', port = 8091\<rparr>,
                \<lparr>hotkey = ''d'', ip = ''10.0.0.4'', port = 8091\<rparr>],
       calls = []\<rparr>"]
    resync_metagraph_scores
    [of "[\<lparr>hotkey = ''a'', ip = ''10.0.0.1'', port = 9000\<rparr>,
       \<lparr>hotkey = ''b'', ip = ''10.0.0.2'', port = 8091\<rparr>]"
      "\<lparr>scores = [Fin 1, Fin 2], hotkeys = [''a'', ''b''],
       axons = [\<lparr>hotkey = ''a'', ip = ''10.0.0.1'', port = 8091\<rparr>,
                \<lparr>hotkey = ''b'', ip = ''10.0.0.2'', port = 8091\<rparr>],
       calls = []\<rparr>"]
  by (simp add: resync_metagraph_def metagraph_hotkeys_def metagraph_n_def
        grow_scores_def zeros_def Let_def)

text \<open>
  C10.  When the synced metagraph has fewer hotkeys than the stored list and its axons
  differ from the previous ones, \<open>resync_metagraph\<close> raises IndexError; the score
  vector keeps its length and the stored hotkeys are not updated.  Whatever the synced
  metagraph, a score vector no longer than the stored hotkeys is never shortened.
\<close>

theorem resync_metagraph_shrink_raises:
  "(length synced < length (hotkeys self) \<and> axons self \<noteq> synced \<longrightarrow>
      fst (resync_metagraph self synced) = Some IndexError \<and>
      length (scores (snd (resync_metagraph self synced))) = length (scores self) \<and>
      hotkeys (snd (resync_metagraph self synced)) = hotkeys self) \<and>
   (length (scores self) \<le> length (hotkeys self) \<longrightarrow>
      length (scores self) \<le> length (scores (snd (resync_metagraph self synced))))"
proof (intro conjI impI)
  assume a: "length synced < length (hotkeys self) \<and> axons self \<noteq> synced"
  then have "length (metagraph_hotkeys synced) < 0 + length (hotkeys self)"
    by (simp add: metagraph_hotkeys_def)
  from zero_replaced_shrink [OF this] obtain sc where
    sc: "zero_replaced 0 (hotkeys self) (metagraph_hotkeys synced) (scores self) = Inl sc"
    by auto
  then have "length sc = length (scores self)"
    using zero_replaced_length by blast
  with a sc show "fst (resync_metagraph self synced) = Some IndexError"
    and "length (scores (snd (resync_metagraph self synced))) = length (scores self)"
    and "hotkeys (snd (resync_metagraph self synced)) = hotkeys self"
    by (simp_all add: resync_metagraph_def Let_def)
next
  assume le: "length (scores self) \<le> length (hotkeys self)"
  show "length (scores self) \<le> length (scores (snd (resync_metagraph self synced)))"
  proof (cases "zero_replaced 0 (hotkeys self) (metagraph_hotkeys synced) (scores self)")
    case (Inl sc)
    then have "length sc = length (scores self)"
      using zero_replaced_length by blast
    with Inl show ?thesis by (simp add: resync_metagraph_def Let_def)
  next
    case (Inr sc)
    then have "length sc = length (scores self)"
      using zero_replaced_length by blast
    with Inr le show ?thesis
      by (simp add: resync_metagraph_def Let_def grow_scores_length metagraph_n_def
            metagraph_hotkeys_def)
  qed
qed

theorem resync_metagraph_shrink_raises_witness:
  "resync_metagraph
      \<lparr>scores = [Fin 1, Fin 2, Fin 3], hotkeys = [''a'', ''b'', ''c''],
       axons = [\<lparr>hotkey = ''a'', ip = ''10.0.0.1'', port = 8091\<rparr>,
                \<lparr>hotkey = ''b'', ip = ''10.0.0.2'', port = 8091\<rparr>,
                \<lparr>hotkey = ''c'', ip = ''10.0.0.3'', port = 8091\<rparr>],
       calls = []\<rparr>
      [\<lparr>hotkey = ''a'', ip = ''10.0.0.1'', port = 8091\<rparr>,
       \<lparr>hotkey = ''x'', ip = ''10.0.0.9'', port = 8091\<rparr>]
   = (Some IndexError,
      \<lparr>scores = [Fin 1, Fin 0, Fin 3], hotkeys = [''a'', ''b'', ''c''],
       axons = [\<lparr>hotkey = ''a'', ip = ''10.0.0.1'', port = 8091\<rparr>,
                \<lparr>hotkey = ''x'', ip = ''10.0.0.9'', port = 8091\<rparr>],
       calls = []\<rparr>)"
  using resync_metagraph_shrink_raises
    [of "[\<lparr>hotkey = ''a'', ip = ''10.0.0.1'', port = 8091\<rparr>,
       \<lparr>hotkey = ''x'', ip = ''10.0.0.9'', port = 8091\<rparr>]"
      "\<lparr>scores = [Fin 1, Fin 2, Fin 3], hotkeys = [''a'', ''b'', ''c''],
       axons = [\<lparr>hotkey = ''a'', ip = ''10.0.0.1'', port = 8091\<rparr>,
                \<lparr>hotkey = ''b'', ip = ''10.0.0.2'', port = 8091\<rparr>,
                \<lparr>hotkey = ''c'', ip = ''10.0.0.3'', port = 8091\<rparr>],
       calls = []\<rparr>"]
  by (simp add: resync_metagraph_def metagraph_hotkeys_def Let_def)

subsection \<open>Peer selection\<close>

lemma remove_nth_length:
  "i < length xs \<Longrightarrow> length (take i xs @ drop (Suc i) xs) = length xs - 1"
  by auto

lemma remove_nth_set: "set (take i xs @ drop (Suc i) xs) \<subseteq> set xs"
  by (auto dest: in_set_takeD in_set_dropD)

lemma remove_nth_distinct:
  assumes "distinct xs" and "i < length xs"
  shows "distinct (take i xs @ drop (Suc i) xs) \<and> xs ! i \<notin> set (take i xs @ drop (Suc i) xs)"
proof -
  from assms(2) have "xs = take i xs @ xs ! i # drop (Suc i) xs"
    by (rule id_take_nth_drop)
  with assms(1) have "distinct (take i xs @ xs ! i # drop (Suc i) xs)" by simp
  then show ?thesis by auto
qed

lemma draw_in_range:
  "(case draws of [] \<Rightarrow> 0 | d # _ \<Rightarrow> d mod length (p # ps)) < length (p # ps)"
  by (cases draws) simp_all

lemma pick_length: "length (pick draws population k) = min k (length population)"
proof (induction draws population k rule: pick.induct)
  case (3 draws p ps k)
  let ?i = "case draws of [] \<Rightarrow> 0 | d # _ \<Rightarrow> d mod length (p # ps)"
  have i: "?i < length (p # ps)" by (rule draw_in_range)
  have "length (pick (tl draws) (take ?i (p # ps) @ drop (Suc ?i) (p # ps)) k) =
      min k (length (take ?i (p # ps) @ drop (Suc ?i) (p # ps)))"
    using "3.IH" [of ?i] by simp
  also have "length (take ?i (p # ps) @ drop (Suc ?i) (p # ps)) = length ps"
    using remove_nth_length [OF i] by simp
  finally show ?case by (simp add: Let_def)
qed simp_all

lemma pick_subset: "set (pick draws population k) \<subseteq> set population"
proof (induction draws population k rule: pick.induct)
  case (3 draws p ps k)
  let ?i = "case draws of [] \<Rightarrow> 0 | d # _ \<Rightarrow> d mod length (p # ps)"
  have i: "?i < length (p # ps)" by (rule draw_in_range)
  have "set (pick (tl draws) (take ?i (p # ps) @ drop (Suc ?i) (p # ps)) k) \<subseteq>
      set (take ?i (p # ps) @ drop (Suc ?i) (p # ps))"
    using "3.IH" [of ?i] by simp
  also have "\<dots> \<subseteq> set (p # ps)" by (rule remove_nth_set)
  finally have "set (pick (tl draws) (take ?i (p # ps) @ drop (Suc ?i) (p # ps)) k) \<subseteq>
      set (p # ps)" .
  moreover have "(p # ps) ! ?i \<in> set (p # ps)" using i by (rule nth_mem)
  ultimately show ?case by (simp add: Let_def)
qed simp_all

lemma pick_distinct: "distinct population \<Longrightarrow> distinct (pick draws population k)"
proof (induction draws population k rule: pick.induct)
  case (3 draws p ps k)
  let ?i = "case draws of [] \<Rightarrow> 0 | d # _ \<Rightarrow> d mod length (p # ps)"
  let ?rest = "take ?i (p # ps) @ drop (Suc ?i) (p # ps)"
  have i: "?i < length (p # ps)" by (rule draw_in_range)
  from remove_nth_distinct [OF "3.prems" i]
  have d: "distinct ?rest" and notin: "(p # ps) ! ?i \<notin> set ?rest" by simp_all
  have "distinct (pick (tl draws) ?rest k)"
    using "3.IH" [of ?i] d by simp
  moreover have "(p # ps) ! ?i \<notin> set (pick (tl draws) ?rest k)"
    using notin pick_subset [of "tl draws" ?rest k] by blast
  ultimately show ?case by (simp add: Let_def)
qed simp_all

text \<open>
  With at least one available worker and a sample size of at least 1, the selection
  returns \<open>clamp(1, 10, min(k, a))\<close> distinct available uids.
\<close>

lemma choose_uids_available:
  assumes "0 < length (filter is_available [0 ..< n])" and "1 \<le> k"
  shows "\<exists>ids. choose_uids draws1 draws2 is_available n k = Inr ids \<and>
     int (length ids) = clamp 1 10 (min k (int (length (filter is_available [0 ..< n])))) \<and>
     distinct ids \<and> set ids \<subseteq> {uid. uid < n \<and> is_available uid}"
proof -
  let ?avail = "filter is_available [0 ..< n]"
  let ?got = "get_random_uids draws1 is_available n k"
  let ?c = "clamp 1 10 (int (length ?got))"
  have got: "?got = pick draws1 ?avail (nat (min k (int (length ?avail))))"
    by (simp add: get_random_uids_def Let_def)
  have glen: "int (length ?got) = min k (int (length ?avail))"
    using assms by (simp add: got pick_length)
  have gdist: "distinct ?got" by (simp add: got pick_distinct)
  have gsub: "set ?got \<subseteq> set ?avail" unfolding got by (rule pick_subset)
  have a1: "1 \<le> int (length ?avail)" using assms(1) by linarith
  have c: "0 \<le> ?c" "?c \<le> int (length ?got)" "?c = clamp 1 10 (min k (int (length ?avail)))"
    using assms(2) a1 unfolding glen clamp_def by linarith+
  then have res: "choose_uids draws1 draws2 is_available n k = Inr (pick draws2 ?got (nat ?c))"
    by (simp add: choose_uids_def random_sample_def Let_def)
  have "int (length (pick draws2 ?got (nat ?c))) = ?c"
    using c(1,2) by (simp add: pick_length)
  moreover have "distinct (pick draws2 ?got (nat ?c))"
    using gdist by (rule pick_distinct)
  moreover have "set (pick draws2 ?got (nat ?c)) \<subseteq> {uid. uid < n \<and> is_available uid}"
    using pick_subset [of draws2 ?got "nat ?c"] gsub by auto
  ultimately show ?thesis using res c(3) by simp
qed

text \<open>With no available worker the selection raises ValueError.\<close>

lemma choose_uids_none_available:
  "filter is_available [0 ..< n] = [] \<Longrightarrow>
     choose_uids draws1 draws2 is_available n k = Inl ValueError"
  by (simp add: choose_uids_def get_random_uids_def random_sample_def clamp_def)

text \<open>
  C9 at the failing input: 7 workers, none of them available, and a sample size of
  20.  The selection does not return the empty set: \<open>clamp\<close> asks for a sample of 1
  out of an empty population and \<open>random.sample\<close> raises ValueError.  The pass of
  the loop that holds a request ends in its exception handler with the request's
  event not set.
\<close>

theorem choose_uids_no_worker_raises:
  "choose_uids [3, 1, 4] [1, 5] (\<lambda>uid. False) 7 20 = Inl ValueError \<and>
   run_iteration
     \<lparr>api_enabled = True, sample_size = 20, should_exit = False,
      available = (\<lambda>uid. False), dendrite_query = (\<lambda>uids request. [])\<rparr>
     [3, 1, 4] [1, 5] 7
     (Some \<lparr>input_synapse = \<lparr>num_results = 5, query = ''shoes'', results = [],
               miner_uid = [], miner_hotkey = []\<rparr>,
            event = False,
            output_synapse = \<lparr>num_results = 5, query = ''shoes'', results = [],
               miner_uid = [], miner_hotkey = []\<rparr>\<rparr>)
   = (Caught ValueError,
      Some \<lparr>input_synapse = \<lparr>num_results = 5, query = ''shoes'', results = [],
               miner_uid = [], miner_hotkey = []\<rparr>,
            event = False,
            output_synapse = \<lparr>num_results = 5, query = ''shoes'', results = [],
               miner_uid = [], miner_hotkey = []\<rparr>\<rparr>)"
  by (simp add: run_iteration_def choose_uids_def get_random_uids_def random_sample_def
        clamp_def)

subsection \<open>The dispatch loop\<close>

text \<open>
  On the API path the event of the dequeued request is set exactly when the arbiter
  finds a winner: without one the pass ends by \<open>continue\<close> and the request is left
  as it was dequeued.
\<close>

lemma run_iteration_no_winner:
  assumes "api_enabled env"
    and "choose_uids draws1 draws2 (available env) n (sample_size env) = Inr chosen"
    and "select_top_result (input_synapse swe)
           (dendrite_query env chosen (input_synapse swe)) = None"
  shows "run_iteration env draws1 draws2 n (Some swe) = (Continued, Some swe)"
  using assms by (simp add: run_iteration_def)

lemma run_iteration_winner:
  assumes "api_enabled env"
    and "choose_uids draws1 draws2 (available env) n (sample_size env) = Inr chosen"
    and "select_top_result (input_synapse swe)
           (dendrite_query env chosen (input_synapse swe)) = Some r"
  shows "run_iteration env draws1 draws2 n (Some swe) =
           (finish env, Some (swe\<lparr>output_synapse := r, event := True\<rparr>))"
  using assms by (simp add: run_iteration_def)

text \<open>
  C1 at the failing input: a request for 5 results is dequeued, three workers are
  available and each replies with 3 results.  The arbiter finds no winner, the pass
  ends by \<open>continue\<close>, and the request is left with its event not set and its result
  slot as the producer filled it.
\<close>

theorem run_iteration_no_winner_leaves_event_unset:
  "run_iteration
     \<lparr>api_enabled = True, sample_size = 20, should_exit = False,
      available = (\<lambda>uid. True),
      dendrite_query = (\<lambda>uids request.
         map (\<lambda>uid. request\<lparr>results := [''a'', ''b'', ''c'']\<rparr>) uids)\<rparr>
     [2, 0, 1] [0, 1, 0] 3
     (Some \<lparr>input_synapse = \<lparr>num_results = 5, query = ''shoes'', results = [],
               miner_uid = [], miner_hotkey = []\<rparr>,
            event = False,
            output_synapse = \<lparr>num_results = 5, query = ''shoes'', results = [],
               miner_uid = [], miner_hotkey = []\<rparr>\<rparr>)
   = (Continued,
      Some \<lparr>input_synapse = \<lparr>num_results = 5, query = ''shoes'', results = [],
               miner_uid = [], miner_hotkey = []\<rparr>,
            event = False,
            output_synapse = \<lparr>num_results = 5, query = ''shoes'', results = [],
               miner_uid = [], miner_hotkey = []\<rparr>\<rparr>)"
  by code_simp

end
